theory Spec2Isabelle
  imports Main
begin

section \<open>JavaScript values, errors and observable actions\<close>

text \<open>
  Events, request bodies and the messages handed to \<open>sendClientEvent\<close> are plain
  JavaScript objects. They are modelled as JSON-like values; an object is an association
  list from keys to values (each key once). Numbers are only ever tested for truthiness,
  so an integer payload suffices.
\<close>

datatype json =
    JUndefined
  | JNull
  | JBool bool
  | JNum int
  | JStr string
  | JArr "json list"
  | JObj "(string \<times> json) list"

datatype js_error =
    Error string
  | TypeError string
  | SyntaxError string

fun message :: "js_error \<Rightarrow> string" where
  "message (Error m) = m"
| "message (TypeError m) = m"
| "message (SyntaxError m) = m"

text \<open>
  What the component does to the outside world, in order: a call of the
  \<open>sendClientEvent\<close> prop (a prop supplied by the parent; each call is recorded and
  taken to resolve), a \<open>setTimeout\<close> wait in milliseconds, a \<open>fetch\<close> request
  (URL and JSON body) and a \<open>console.error\<close> line (label and error).
  \<open>console.log\<close> output is not recorded.
\<close>

datatype action =
    Send json
  | Wait nat
  | Fetch string json
  | LogError string js_error

datatype ready_state = Connecting | Open | Closing | Closed

text \<open>
  The \<open>dataChannel\<close> prop is a live object: its \<open>readyState\<close> may differ each
  time it is read. A channel is the sequence of values its \<open>readyState\<close> shows at the
  successive reads of one routine (read \<open>0\<close> is the first check). A missing handle
  (\<open>null\<close>/\<open>undefined\<close>) is \<open>None\<close>.
\<close>

type_synonym data_channel = "nat \<Rightarrow> ready_state"

fun total_wait :: "action list \<Rightarrow> nat" where
  "total_wait [] = 0"
| "total_wait (Wait d # as) = d + total_wait as"
| "total_wait (_ # as) = total_wait as"

fun sent :: "action list \<Rightarrow> json list" where
  "sent [] = []"
| "sent (Send m # as) = m # sent as"
| "sent (_ # as) = sent as"

section \<open>ToolPanel.jsx: delivery of the analysis text (\<open>sendToModel\<close>)\<close>

definition function_result_event :: json where
  "function_result_event =
     JObj [(''type'', JStr ''function_result''),
           (''function_call'',
              JObj [(''name'', JStr ''take_photo''),
                    (''output'', JObj [(''success'', JBool True)])])]"

definition assistant_message_event :: "json \<Rightarrow> json" where
  "assistant_message_event txt =
     JObj [(''type'', JStr ''conversation.item.create''),
           (''item'',
              JObj [(''type'', JStr ''message''),
                    (''role'', JStr ''assistant''),
                    (''content'', JArr [JObj [(''type'', JStr ''text''), (''text'', txt)]])])]"

definition speech_event :: "json \<Rightarrow> json" where
  "speech_event txt =
     JObj [(''type'', JStr ''speech.output.start''),
           (''speech'', JObj [(''voice'', JStr ''verse''), (''text'', txt)])]"

definition maxAttempts :: nat where
  "maxAttempts = 5"

definition baseDelay :: nat where
  "baseDelay = 1000"

definition channel_unavailable :: js_error where
  "channel_unavailable = Error ''Failed to send results to model - channel not available''"

text \<open>
  The \<open>for\<close> loop of \<open>sendToModel\<close>, entered at index \<open>attempt\<close>. The result is the
  trace of actions and how the async function settles: \<open>Inr ()\<close> for a plain
  \<open>return\<close> (after the three sends, or silently when the handle or the session flag
  is missing), \<open>Inl\<close> for the \<open>throw\<close> after the loop. \<open>dataChannel\<close> and
  \<open>isSessionActive\<close> are the props captured by the closure: they do not change
  during the loop, only the channel's \<open>readyState\<close> does.
\<close>

function sendToModel_loop ::
  "data_channel option \<Rightarrow> bool \<Rightarrow> json \<Rightarrow> nat \<Rightarrow> action list \<times> (js_error + unit)" where
  "sendToModel_loop dataChannel isSessionActive analysisText attempt =
     (if attempt < maxAttempts then
        (case dataChannel of
           None \<Rightarrow> ([], Inr ())
         | Some ch \<Rightarrow>
             if \<not> isSessionActive then ([], Inr ())
             else if ch attempt = Open then
               ([Send function_result_event,
                 Send (assistant_message_event analysisText),
                 Send (speech_event analysisText)], Inr ())
             else
               (let delay = baseDelay * 2 ^ attempt;
                    rest = sendToModel_loop dataChannel isSessionActive analysisText (attempt + 1)
                in (Wait delay # fst rest, snd rest)))
      else ([], Inl channel_unavailable))"
  by pat_completeness auto
termination
  by (relation "measure (\<lambda>(dc, a, t, attempt). maxAttempts - attempt)") auto

definition sendToModel :: "data_channel option \<Rightarrow> bool \<Rightarrow> json \<Rightarrow> action list \<times> (js_error + unit)" where
  "sendToModel dataChannel isSessionActive analysisText =
     sendToModel_loop dataChannel isSessionActive analysisText 0"

definition delivery :: "json \<Rightarrow> action list" where
  "delivery txt =
     [Send function_result_event, Send (assistant_message_event txt), Send (speech_event txt)]"

definition backoff :: "nat \<Rightarrow> nat \<Rightarrow> action list" where
  "backoff a k = map (\<lambda>i. Wait (baseDelay * 2 ^ i)) [a..<k]"


section \<open>Property access on JavaScript values\<close>

definition nullish :: "json \<Rightarrow> bool" where
  "nullish v \<longleftrightarrow> v = JUndefined \<or> v = JNull"

fun truthy :: "json \<Rightarrow> bool" where
  "truthy JUndefined = False"
| "truthy JNull = False"
| "truthy (JBool b) = b"
| "truthy (JNum n) = (n \<noteq> 0)"
| "truthy (JStr s) = (s \<noteq> [])"
| "truthy (JArr xs) = True"
| "truthy (JObj kvs) = True"

definition cannot_read :: "string \<Rightarrow> string \<Rightarrow> js_error" where
  "cannot_read what p =
     TypeError (''Cannot read properties of '' @ what @ '' (reading '' @
                [CHR 0x27] @ p @ [CHR 0x27] @ '')'')"

text \<open>
  \<open>v.p\<close>: reading a property of \<open>null\<close> or \<open>undefined\<close> raises a TypeError;
  an object yields the member or \<open>undefined\<close>; the property names read by this program
  (\<open>type\<close>, \<open>name\<close>, \<open>function\<close>, \<open>response\<close>, \<open>output\<close>, \<open>content\<close>,
  \<open>message\<close>) are \<open>undefined\<close> on arrays, strings, numbers and booleans.
\<close>

fun get_prop :: "json \<Rightarrow> string \<Rightarrow> js_error + json" where
  "get_prop JUndefined p = Inl (cannot_read ''undefined'' p)"
| "get_prop JNull p = Inl (cannot_read ''null'' p)"
| "get_prop (JObj kvs) p = Inr (case map_of kvs p of Some v \<Rightarrow> v | None \<Rightarrow> JUndefined)"
| "get_prop v p = Inr JUndefined"

text \<open>\<open>v?.p\<close>: as \<open>v.p\<close>, but \<open>undefined\<close> when \<open>v\<close> is \<open>null\<close> or \<open>undefined\<close>.\<close>

fun opt_prop :: "json \<Rightarrow> string \<Rightarrow> json" where
  "opt_prop (JObj kvs) p = (case map_of kvs p of Some v \<Rightarrow> v | None \<Rightarrow> JUndefined)"
| "opt_prop v p = JUndefined"

text \<open>The callback \<open>o => o.type === "function_call"\<close>.\<close>

definition is_function_call :: "json \<Rightarrow> js_error + bool" where
  "is_function_call el =
     (case get_prop el ''type'' of
        Inl err \<Rightarrow> Inl err
      | Inr t \<Rightarrow> Inr (t = JStr ''function_call''))"

text \<open>
  \<open>Array.prototype.some\<close> and \<open>Array.prototype.find\<close>: the elements are visited in
  order, the visit stops at the first element the callback accepts, and an exception
  of the callback ends the call.
\<close>

fun array_some :: "(json \<Rightarrow> js_error + bool) \<Rightarrow> json list \<Rightarrow> js_error + bool" where
  "array_some f [] = Inr False"
| "array_some f (x # xs) =
     (case f x of
        Inl err \<Rightarrow> Inl err
      | Inr b \<Rightarrow> if b then Inr True else array_some f xs)"

fun array_find :: "(json \<Rightarrow> js_error + bool) \<Rightarrow> json list \<Rightarrow> js_error + json" where
  "array_find f [] = Inr JUndefined"
| "array_find f (x # xs) =
     (case f x of
        Inl err \<Rightarrow> Inl err
      | Inr b \<Rightarrow> if b then Inr x else array_find f xs)"

definition not_a_function :: "string \<Rightarrow> js_error" where
  "not_a_function m = TypeError (''mostRecentEvent.response?.output?.'' @ m @ '' is not a function'')"

text \<open>
  \<open>v?.some(o => o.type === "function_call")\<close> and
  \<open>v?.find(o => o.type === "function_call")\<close>: \<open>undefined\<close> when \<open>v\<close> is
  \<open>null\<close> or \<open>undefined\<close>, the array method on an array, and a TypeError on anything
  else, which has no callable \<open>some\<close> or \<open>find\<close>.
\<close>

fun opt_some :: "json \<Rightarrow> js_error + json" where
  "opt_some JUndefined = Inr JUndefined"
| "opt_some JNull = Inr JUndefined"
| "opt_some (JArr xs) =
     (case array_some is_function_call xs of Inl err \<Rightarrow> Inl err | Inr b \<Rightarrow> Inr (JBool b))"
| "opt_some v = Inl (not_a_function ''some'')"

fun opt_find :: "json \<Rightarrow> js_error + json" where
  "opt_find JUndefined = Inr JUndefined"
| "opt_find JNull = Inr JUndefined"
| "opt_find (JArr xs) = array_find is_function_call xs"
| "opt_find v = Inl (not_a_function ''find'')"

section \<open>ToolPanel.jsx: component state and the two effects\<close>

record ui_state =
  showCamera :: bool
  currentImageFilename :: "string option"
  isAnalyzing :: bool
  currentImage :: "string option"
  analysisError :: "string option"

definition initial_ui :: ui_state where
  "initial_ui =
     \<lparr>showCamera = False, currentImageFilename = None, isAnalyzing = False,
      currentImage = None, analysisError = None\<rparr>"

definition event_output :: "json \<Rightarrow> json" where
  "event_output e = opt_prop (opt_prop e ''response'') ''output''"

text \<open>
  The condition of the \<open>if\<close> in the events effect, on an event that is neither
  \<open>null\<close> nor \<open>undefined\<close> (the \<open>console.log\<close> line before it has already read
  \<open>mostRecentEvent.type\<close>, so \<open>.p\<close> and \<open>?.p\<close> agree on the event itself).
  \<open>||\<close> and \<open>&&\<close> evaluate left to right and stop early.
\<close>

definition function_call_event :: "json \<Rightarrow> js_error + bool" where
  "function_call_event e =
     (let ty = opt_prop e ''type'' in
      if ty = JStr ''function_call'' then Inr True
      else if ty = JStr ''response.output_item.added'' \<and>
              opt_prop (event_output e) ''type'' = JStr ''function_call'' then Inr True
      else if ty = JStr ''response.done'' then
        (case opt_some (event_output e) of Inl err \<Rightarrow> Inl err | Inr b \<Rightarrow> Inr (truthy b))
      else Inr False)"

text \<open>
  \<open>mostRecentEvent.function?.name || mostRecentEvent.response?.output?.name ||
  mostRecentEvent.response?.output?.find(...)?.name\<close>: the first truthy operand, else
  the last one.
\<close>

definition functionName :: "json \<Rightarrow> js_error + json" where
  "functionName e =
     (let direct = opt_prop (opt_prop e ''function'') ''name'';
          nested = opt_prop (event_output e) ''name''
      in if truthy direct then Inr direct
         else if truthy nested then Inr nested
         else (case opt_find (event_output e) of
                 Inl err \<Rightarrow> Inl err
               | Inr el \<Rightarrow> Inr (opt_prop el ''name'')))"

text \<open>
  The effect on \<open>[events]\<close>. The result is the state after the setters that ran and
  the exception, if one was raised. Both setters are the last statements, so an
  exception leaves the state as it was.
\<close>

definition events_effect :: "json list option \<Rightarrow> ui_state \<Rightarrow> ui_state \<times> js_error option" where
  "events_effect events s =
     (case events of
        None \<Rightarrow> (s, None)
      | Some [] \<Rightarrow> (s, None)
      | Some (mostRecentEvent # older) \<Rightarrow>
          (case get_prop mostRecentEvent ''type'' of
             Inl err \<Rightarrow> (s, Some err)
           | Inr ty \<Rightarrow>
               (case function_call_event mostRecentEvent of
                  Inl err \<Rightarrow> (s, Some err)
                | Inr found \<Rightarrow>
                    if found then
                      (case functionName mostRecentEvent of
                         Inl err \<Rightarrow> (s, Some err)
                       | Inr n \<Rightarrow>
                           if n = JStr ''take_photo''
                           then (s\<lparr>showCamera := True, analysisError := None\<rparr>, None)
                           else (s, None))
                    else (s, None))))"

text \<open>
  \<open>cleanupSession\<close>: one POST to \<open>/cleanup-image\<close>; a rejected request is logged.
  \<open>response\<close> is how the request settles.
\<close>

definition cleanupSession :: "string \<Rightarrow> (js_error + unit) \<Rightarrow> action list" where
  "cleanupSession imageFilename response =
     Fetch ''/cleanup-image'' (JObj [(''filename'', JStr imageFilename)]) #
     (case response of Inl err \<Rightarrow> [LogError ''Cleanup failed:'' err] | Inr u \<Rightarrow> [])"

text \<open>
  The effect on \<open>[isSessionActive]\<close>. \<open>if (currentImageFilename)\<close> is a truthiness
  test: \<open>null\<close> and the empty string do not pass.
\<close>

definition session_effect :: "bool \<Rightarrow> (js_error + unit) \<Rightarrow> ui_state \<Rightarrow> ui_state \<times> action list" where
  "session_effect isSessionActive cleanup_response s =
     (if \<not> isSessionActive then
        (let s1 = s\<lparr>showCamera := False, isAnalyzing := False,
                     currentImage := None, analysisError := None\<rparr>
         in case currentImageFilename s of
              None \<Rightarrow> (s1, [])
            | Some f \<Rightarrow>
                if f \<noteq> [] then
                  (s1\<lparr>currentImageFilename := None\<rparr>, cleanupSession f cleanup_response)
                else (s1, []))
      else (s, []))"


section \<open>ToolPanel.jsx: \<open>analyzeWithTimeout\<close>\<close>

text \<open>
  A promise either never settles or settles at some time (milliseconds after the call
  that created it) with a rejection (\<open>Inl\<close>) or a value (\<open>Inr\<close>). Settlements are
  delivered in the order of their times, and of two settlements due at the same time
  the one set up first is delivered first. \<open>earlier p q\<close> is the settlement
  delivered first of a promise \<open>p\<close> and a promise \<open>q\<close> set up after \<open>p\<close>.
  \<open>Promise.race\<close> settles as the first of its inputs to settle, wherever that input
  stands in the array: \<open>promise_race\<close> takes the inputs in the order in which they
  were set up.
\<close>

datatype 'a promise = Never | Settles nat "js_error + 'a"

fun earlier :: "'a promise \<Rightarrow> 'a promise \<Rightarrow> 'a promise" where
  "earlier Never q = q"
| "earlier (Settles t r) Never = Settles t r"
| "earlier (Settles t r) (Settles u v) = (if u < t then Settles u v else Settles t r)"

definition promise_race :: "'a promise list \<Rightarrow> 'a promise" where
  "promise_race ps = foldr earlier ps Never"

text \<open>
  The response of \<open>fetch\<close>: its HTTP status and what \<open>response.json()\<close> settles
  to (the parsed body, or the rejection for a body that is not JSON).
\<close>

record response =
  status :: nat
  json_body :: "js_error + json"

definition VISION_TIMEOUT :: nat where
  "VISION_TIMEOUT = 10000"

definition timeoutPromise :: "response promise" where
  "timeoutPromise = Settles VISION_TIMEOUT (Inl (Error ''Vision analysis timeout''))"

text \<open>
  \<open>fetched\<close> is the promise returned by \<open>fetch("/analyze-image", ...)\<close>. The
  timer is started first (\<open>setTimeout\<close> in the executor of \<open>timeoutPromise\<close>)
  and \<open>fetch\<close> is called after it, inside the array literal handed to
  \<open>Promise.race\<close>: of the two inputs of the race the timer is the older one, so a
  request that settles at exactly \<open>VISION_TIMEOUT\<close> ms loses to it. The
  \<open>try\<close>/\<open>catch\<close> around the race rethrows and changes nothing.
\<close>

definition analyzeWithTimeout :: "response promise \<Rightarrow> response promise" where
  "analyzeWithTimeout fetched = promise_race [timeoutPromise, fetched]"

section \<open>ToolPanel.jsx: \<open>handlePhotoTaken\<close>\<close>

text \<open>
  The handler runs in two parts: up to \<open>await analyzeWithTimeout(imageData)\<close>, and
  from the settlement of that promise on. \<open>dataChannel\<close> and \<open>isSessionActive\<close>
  are the props of the render that created the handler.
\<close>

definition handlePhotoTaken_begin :: "string \<Rightarrow> ui_state \<Rightarrow> ui_state \<times> action list" where
  "handlePhotoTaken_begin imageData s =
     (s\<lparr>showCamera := False, currentImage := Some imageData,
        isAnalyzing := True, analysisError := None\<rparr>,
      [Fetch ''/analyze-image'' (JObj [(''imageData'', JStr imageData)])])"

text \<open>The \<open>catch\<close> block of \<open>handlePhotoTaken\<close>.\<close>

definition handlePhotoTaken_catch ::
  "data_channel option \<Rightarrow> js_error \<Rightarrow> ui_state \<Rightarrow> ui_state \<times> action list" where
  "handlePhotoTaken_catch dataChannel err s =
     (let s1 = s\<lparr>isAnalyzing := False, analysisError := Some (message err)\<rparr>;
          logged = [LogError ''Vision analysis failed:'' err]
      in if message err = ''Vision analysis timeout'' then
           (let errorText = ''Vision analysis timed out. Please try again.'';
                s2 = s1\<lparr>analysisError := Some errorText\<rparr>
            in case dataChannel of
                 None \<Rightarrow> (s2, logged)
               | Some ch \<Rightarrow>
                   if ch 0 = Open then
                     (s2, logged @
                        [Send (assistant_message_event (JStr errorText)),
                         Send (speech_event (JStr
                           (''I'' @ [CHR 0x27] @ ''m sorry, but the vision analysis timed out. '' @
                            ''Please try taking another photo.'')))])
                   else (s2, logged))
         else (s1, logged))"

text \<open>
  \<open>sendToModel().catch(error => console.error(...))\<close>: the delivery runs in the
  background; a rejection is consumed by the \<open>catch\<close> handler, which logs it.
\<close>

definition sendToModel_background :: "data_channel option \<Rightarrow> bool \<Rightarrow> json \<Rightarrow> action list" where
  "sendToModel_background dataChannel isSessionActive analysisText =
     (let run = sendToModel dataChannel isSessionActive analysisText
      in case snd run of
           Inl err \<Rightarrow> fst run @ [LogError ''Failed to send to model:'' err]
         | Inr u \<Rightarrow> fst run)"

text \<open>
  The rest of \<open>handlePhotoTaken\<close>, given how \<open>analyzeWithTimeout\<close> settled. Every
  exception of the \<open>try\<close> block is caught, and neither the \<open>catch\<close> block nor the
  background delivery raises, so the promise of \<open>handlePhotoTaken\<close> itself always
  resolves: the result is the state and the actions only.
\<close>

definition handlePhotoTaken_resume ::
  "data_channel option \<Rightarrow> bool \<Rightarrow> js_error + response \<Rightarrow> ui_state \<Rightarrow> ui_state \<times> action list" where
  "handlePhotoTaken_resume dataChannel isSessionActive settled s =
     (case settled of
        Inl err \<Rightarrow> handlePhotoTaken_catch dataChannel err s
      | Inr resp \<Rightarrow>
          (case json_body resp of
             Inl err \<Rightarrow> handlePhotoTaken_catch dataChannel err s
           | Inr analysis \<Rightarrow>
               (let s1 = s\<lparr>isAnalyzing := False\<rparr>
                in case get_prop analysis ''message'' of
                     Inl err \<Rightarrow> handlePhotoTaken_catch dataChannel err s1
                   | Inr msg \<Rightarrow>
                       (case get_prop msg ''content'' of
                          Inl err \<Rightarrow> handlePhotoTaken_catch dataChannel err s1
                        | Inr analysisText \<Rightarrow>
                            (s1, sendToModel_background dataChannel isSessionActive
                                   analysisText)))))"

text \<open>
  The whole handler when nothing else happens in between: the first part, the await,
  the second part. \<open>None\<close> would be a handler that never resumes.
\<close>

definition handlePhotoTaken ::
  "data_channel option \<Rightarrow> bool \<Rightarrow> string \<Rightarrow> response promise \<Rightarrow> ui_state \<Rightarrow>
   (ui_state \<times> action list) option" where
  "handlePhotoTaken dataChannel isSessionActive imageData fetched s =
     (let started = handlePhotoTaken_begin imageData s
      in case analyzeWithTimeout fetched of
           Never \<Rightarrow> None
         | Settles t settled \<Rightarrow>
             (let finished = handlePhotoTaken_resume dataChannel isSessionActive settled
                               (fst started)
              in Some (fst finished, snd started @ snd finished)))"

section \<open>ToolPanel.jsx: the component as a transition system\<close>

text \<open>
  The panel: its state, the props \<open>isSessionActive\<close> and \<open>dataChannel\<close> of the
  latest render, the analyses still awaited (each with the props its handler captured),
  and every action issued so far.
\<close>

record panel =
  ui :: ui_state
  props_active :: bool
  props_channel :: "data_channel option"
  in_flight :: "(data_channel option \<times> bool) list"
  issued :: "action list"

definition mount :: "bool \<Rightarrow> data_channel option \<Rightarrow> panel" where
  "mount active dc =
     \<lparr>ui = initial_ui, props_active = active, props_channel = dc, in_flight = [], issued = []\<rparr>"

text \<open>
  One step of the panel: an effect run (the events effect for a new \<open>events\<close> prop,
  the session effect for a new \<open>isSessionActive\<close> prop; React also runs both once
  after mounting), a new \<open>dataChannel\<close> prop, the modal's \<open>onClose\<close> and
  \<open>onPhotoTaken\<close> callbacks (the modal is rendered only while \<open>showCamera\<close> holds),
  and the settlement of an awaited analysis. An events effect that raises has no
  successor here.
\<close>

inductive panel_step :: "panel \<Rightarrow> panel \<Rightarrow> bool" where
  events_changed:
    "events_effect evs (ui p) = (s', None) \<Longrightarrow> panel_step p (p\<lparr>ui := s'\<rparr>)"
| session_changed:
    "session_effect b r (ui p) = (s', acts) \<Longrightarrow>
     panel_step p (p\<lparr>ui := s', props_active := b, issued := issued p @ acts\<rparr>)"
| channel_changed:
    "panel_step p (p\<lparr>props_channel := dc\<rparr>)"
| camera_closed:
    "showCamera (ui p) \<Longrightarrow> panel_step p (p\<lparr>ui := (ui p)\<lparr>showCamera := False\<rparr>\<rparr>)"
| photo_taken:
    "showCamera (ui p) \<Longrightarrow> handlePhotoTaken_begin img (ui p) = (s', acts) \<Longrightarrow>
     panel_step p (p\<lparr>ui := s',
                     in_flight := (props_channel p, props_active p) # in_flight p,
                     issued := issued p @ acts\<rparr>)"
| analysis_settled:
    "(dc, a) \<in> set (in_flight p) \<Longrightarrow> analyzeWithTimeout fetched = Settles t r \<Longrightarrow>
     handlePhotoTaken_resume dc a r (ui p) = (s', acts) \<Longrightarrow>
     panel_step p (p\<lparr>ui := s',
                     in_flight := remove1 (dc, a) (in_flight p),
                     issued := issued p @ acts\<rparr>)"

inductive reachable :: "panel \<Rightarrow> bool" where
  mounted: "reachable (mount active dc)"
| stepped: "reachable p \<Longrightarrow> panel_step p q \<Longrightarrow> reachable q"

fun cleanup_request :: "action \<Rightarrow> bool" where
  "cleanup_request (Fetch url body) = (url = ''/cleanup-image'')"
| "cleanup_request a = False"


section \<open>CameraModal.jsx: the media stream and the effect's cleanup\<close>

text \<open>
  Media streams are objects shared between the browser and the component: a store maps
  a stream handle to the states of its tracks.
\<close>

datatype track_state = Live | Ended

type_synonym stream_handle = nat

type_synonym streams = "stream_handle \<Rightarrow> track_state list option"

record modal_state =
  stream :: "stream_handle option"
  error :: "string option"
  srcObject :: "stream_handle option"

text \<open>
  A mounted modal: its state, whether it is still mounted, and the value of \<open>stream\<close>
  that the cleanup function returned by the effect closes over. The effect has the
  dependency list \<open>[]\<close>: it runs once, after the first render, and its cleanup function
  is the one created then.
\<close>

record camera_modal =
  state :: modal_state
  is_mounted :: bool
  cleanup_stream :: "stream_handle option"

definition CameraModal_mount :: camera_modal where
  "CameraModal_mount =
     (let first_render = \<lparr>stream = None, error = None, srcObject = None\<rparr>
      in \<lparr>state = first_render, is_mounted = True, cleanup_stream = stream first_render\<rparr>)"

text \<open>
  \<open>setupCamera\<close> after \<open>getUserMedia\<close> resolved with a new stream \<open>h\<close> of \<open>n\<close>
  live tracks: the stream is attached to the video element (present while the modal is
  mounted) and stored with \<open>setStream\<close>. After a rejection the error text is set.
\<close>

definition setupCamera_resolved ::
  "stream_handle \<Rightarrow> nat \<Rightarrow> camera_modal \<Rightarrow> streams \<Rightarrow> camera_modal \<times> streams" where
  "setupCamera_resolved h n m st =
     ((if is_mounted m
       then m\<lparr>state := (state m)\<lparr>srcObject := Some h, stream := Some h\<rparr>\<rparr>
       else m),
      st(h \<mapsto> replicate n Live))"

definition setupCamera_rejected :: "camera_modal \<Rightarrow> camera_modal" where
  "setupCamera_rejected m =
     m\<lparr>state := (state m)\<lparr>error :=
        Some (''Could not access camera. '' @
              ''Please ensure you have granted camera permissions.'')\<rparr>\<rparr>"

text \<open>\<open>stream.getTracks().forEach(track => track.stop())\<close>.\<close>

definition stop_tracks :: "stream_handle \<Rightarrow> streams \<Rightarrow> streams" where
  "stop_tracks h st = (case st h of None \<Rightarrow> st | Some ts \<Rightarrow> st(h \<mapsto> map (\<lambda>t. Ended) ts))"

text \<open>The cleanup function: \<open>if (stream) { ... }\<close> on the \<open>stream\<close> it closed over.\<close>

definition effect_cleanup :: "camera_modal \<Rightarrow> streams \<Rightarrow> streams" where
  "effect_cleanup m st =
     (case cleanup_stream m of None \<Rightarrow> st | Some h \<Rightarrow> stop_tracks h st)"

definition unmount :: "camera_modal \<Rightarrow> streams \<Rightarrow> camera_modal \<times> streams" where
  "unmount m st = (m\<lparr>is_mounted := False\<rparr>, effect_cleanup m st)"

text \<open>
  The three ways out of the modal. \<open>onClose\<close> and \<open>takePhoto\<close> do not touch the
  stream themselves; both end in the parent's \<open>setShowCamera(false)\<close>, which unmounts
  the modal, as the teardown of the parent does.
\<close>

datatype exit_path = CloseButton | PhotoCaptured | ParentUnmounted

fun dismiss :: "exit_path \<Rightarrow> camera_modal \<Rightarrow> streams \<Rightarrow> camera_modal \<times> streams" where
  "dismiss CloseButton m st = unmount m st"
| "dismiss PhotoCaptured m st = unmount m st"
| "dismiss ParentUnmounted m st = unmount m st"

definition released :: "stream_handle \<Rightarrow> streams \<Rightarrow> bool" where
  "released h st = (case st h of None \<Rightarrow> True | Some ts \<Rightarrow> list_all (\<lambda>t. t = Ended) ts)"

section \<open>The event classifier as the specification words it\<close>

text \<open>
  The three recognized shapes and the resolution of the function name, written from the
  specification's description and independent of the order in which the effect
  evaluates its operands. These are compared with \<open>events_effect\<close> below.
\<close>

datatype shape = DirectCall | AddedItem | CompletedResponse

definition marked_function_call :: "json \<Rightarrow> bool" where
  "marked_function_call v \<longleftrightarrow> opt_prop v ''type'' = JStr ''function_call''"

fun output_collection :: "json \<Rightarrow> json list" where
  "output_collection (JArr xs) = xs"
| "output_collection v = []"

fun spec_matches :: "shape \<Rightarrow> json \<Rightarrow> bool" where
  "spec_matches DirectCall e \<longleftrightarrow> opt_prop e ''type'' = JStr ''function_call''"
| "spec_matches AddedItem e \<longleftrightarrow>
     opt_prop e ''type'' = JStr ''response.output_item.added'' \<and>
     marked_function_call (event_output e)"
| "spec_matches CompletedResponse e \<longleftrightarrow>
     opt_prop e ''type'' = JStr ''response.done'' \<and>
     find marked_function_call (output_collection (event_output e)) \<noteq> None"

definition any_shape :: "json \<Rightarrow> bool" where
  "any_shape e \<longleftrightarrow>
     spec_matches DirectCall e \<or> spec_matches AddedItem e \<or> spec_matches CompletedResponse e"

definition spec_name_locations :: "json \<Rightarrow> json list" where
  "spec_name_locations e =
     [opt_prop (opt_prop e ''function'') ''name'',
      opt_prop (event_output e) ''name'',
      (case find marked_function_call (output_collection (event_output e)) of
         None \<Rightarrow> JUndefined
       | Some el \<Rightarrow> opt_prop el ''name'')]"

definition spec_function_name :: "json \<Rightarrow> json" where
  "spec_function_name e =
     (case find truthy (spec_name_locations e) of None \<Rightarrow> JUndefined | Some n \<Rightarrow> n)"

definition spec_detected :: "json \<Rightarrow> bool" where
  "spec_detected e \<longleftrightarrow>
     any_shape e \<and> spec_function_name e = JStr ''take_photo''"

text \<open>
  When a list method applied to \<open>response.output\<close> raises: the value is neither absent
  nor a list, or the scan meets a \<open>null\<close> or \<open>undefined\<close> element before a
  function-call element. The effect reaches such a call for a \<open>response.done\<close>
  event (in the condition) and for a direct or added-item match without a truthy name
  in the first two locations (in the name lookup); it also raises on an event that is
  itself \<open>null\<close> or \<open>undefined\<close>.
\<close>

fun scan_raises :: "json list \<Rightarrow> bool" where
  "scan_raises [] = False"
| "scan_raises (x # xs) = (nullish x \<or> (\<not> marked_function_call x \<and> scan_raises xs))"

fun list_method_raises :: "json \<Rightarrow> bool" where
  "list_method_raises JUndefined = False"
| "list_method_raises JNull = False"
| "list_method_raises (JArr xs) = scan_raises xs"
| "list_method_raises v = True"

definition effect_raises :: "json \<Rightarrow> bool" where
  "effect_raises e \<longleftrightarrow>
     nullish e \<or>
     (list_method_raises (event_output e) \<and>
      (opt_prop e ''type'' = JStr ''response.done'' \<or>
       ((spec_matches DirectCall e \<or> spec_matches AddedItem e) \<and>
        \<not> truthy (opt_prop (opt_prop e ''function'') ''name'') \<and>
        \<not> truthy (opt_prop (event_output e) ''name''))))"

section \<open>Responses the handler cannot read\<close>

text \<open>
  A response whose body cannot be parsed, or whose parsed body is \<open>null\<close> or has no
  \<open>message\<close> member to read \<open>content\<close> from; and the text the handler takes
  from a response that has one.
\<close>

definition lacks_message :: "response \<Rightarrow> bool" where
  "lacks_message resp =
     (case json_body resp of
        Inl err \<Rightarrow> True
      | Inr analysis \<Rightarrow> nullish analysis \<or> nullish (opt_prop analysis ''message''))"

definition content_of :: "response \<Rightarrow> json" where
  "content_of resp =
     (case json_body resp of
        Inl err \<Rightarrow> JUndefined
      | Inr analysis \<Rightarrow> opt_prop (opt_prop analysis ''message'') ''content'')"

text \<open>
  The error such a response raises in the \<open>try\<close> block: the rejection of
  \<open>response.json()\<close>, or the TypeError of reading \<open>message\<close> of a body that is
  \<open>undefined\<close> or \<open>null\<close>, or of reading \<open>content\<close> of a \<open>message\<close> that is
  \<open>null\<close> or \<open>undefined\<close>. \<open>shown_text\<close> is the error text the \<open>catch\<close> block
  leaves for an error: its message, replaced by the dedicated text when the message is
  the timer's.
\<close>

definition raised_error :: "response \<Rightarrow> js_error" where
  "raised_error resp =
     (case json_body resp of
        Inl err \<Rightarrow> err
      | Inr analysis \<Rightarrow>
          if analysis = JUndefined then cannot_read ''undefined'' ''message''
          else if analysis = JNull then cannot_read ''null'' ''message''
          else if opt_prop analysis ''message'' = JNull then cannot_read ''null'' ''content''
          else cannot_read ''undefined'' ''content'')"

definition shown_text :: "js_error \<Rightarrow> string" where
  "shown_text err =
     (if message err = ''Vision analysis timeout''
      then ''Vision analysis timed out. Please try again.''
      else message err)"

section \<open>The Delivery Channel Adapter as the specification words it\<close>

text \<open>
  Section 4.4 of the specification, for any list of messages: up to five attempts;
  before each attempt the session flag and the channel handle are checked, and a failed
  check ends the delivery silently; on an open channel all messages are sent in order
  and the delivery returns; otherwise the adapter waits \<open>1000 * 2^attempt\<close> ms before the
  next check; after the last attempt it fails with the channel-unavailable error. This
  is compared with \<open>sendToModel\<close> and with the \<open>catch\<close> block below.
\<close>

function spec_adapter_loop ::
  "json list \<Rightarrow> data_channel option \<Rightarrow> bool \<Rightarrow> nat \<Rightarrow> action list \<times> (js_error + unit)" where
  "spec_adapter_loop msgs dc active attempt =
     (if attempt < 5 then
        (case dc of
           None \<Rightarrow> ([], Inr ())
         | Some ch \<Rightarrow>
             if \<not> active then ([], Inr ())
             else if ch attempt = Open then (map Send msgs, Inr ())
             else (Wait (1000 * 2 ^ attempt) #
                     fst (spec_adapter_loop msgs dc active (Suc attempt)),
                   snd (spec_adapter_loop msgs dc active (Suc attempt))))
      else ([], Inl channel_unavailable))"
  by pat_completeness auto
termination
  by (relation "measure (\<lambda>(msgs, dc, active, attempt). 5 - attempt)") auto

definition spec_adapter ::
  "json list \<Rightarrow> data_channel option \<Rightarrow> bool \<Rightarrow> action list \<times> (js_error + unit)" where
  "spec_adapter msgs dc active = spec_adapter_loop msgs dc active 0"

text \<open>The two messages of the apology, as the \<open>catch\<close> block builds them.\<close>

definition apology_messages :: "json list" where
  "apology_messages =
     [assistant_message_event (JStr ''Vision analysis timed out. Please try again.''),
      speech_event (JStr
        (''I'' @ [CHR 0x27] @ ''m sorry, but the vision analysis timed out. '' @
         ''Please try taking another photo.''))]"

section \<open>Sample inputs\<close>

definition opens_at :: "nat \<Rightarrow> data_channel" where
  "opens_at n i = (if i = n then Open else Connecting)"

definition never_open :: data_channel where
  "never_open i = Connecting"

definition analysis_response :: "nat \<Rightarrow> json \<Rightarrow> response" where
  "analysis_response code msg = \<lparr>status = code, json_body = Inr (JObj [(''message'', msg)])\<rparr>"

definition analyzing_ui :: ui_state where
  "analyzing_ui = fst (handlePhotoTaken_begin ''test-image-url'' initial_ui)"

text \<open>The error body that \<open>/analyze-image\<close> in server.js sends with status 500.\<close>

definition server_error_response :: response where
  "server_error_response =
     \<lparr>status = 500,
      json_body = Inr (JObj [(''error'', JStr ''Vision analysis failed''),
                             (''details'', JStr ''upstream failure'')])\<rparr>"

definition function_call_item :: "string \<Rightarrow> json" where
  "function_call_item n = JObj [(''type'', JStr ''function_call''), (''name'', JStr n)]"

definition direct_event :: "string \<Rightarrow> json" where
  "direct_event n =
     JObj [(''type'', JStr ''function_call''), (''function'', JObj [(''name'', JStr n)])]"

definition added_event :: "string \<Rightarrow> json" where
  "added_event n =
     JObj [(''type'', JStr ''response.output_item.added''),
           (''response'', JObj [(''output'', function_call_item n)])]"

definition done_event :: "json list \<Rightarrow> json" where
  "done_event items =
     JObj [(''type'', JStr ''response.done''), (''response'', JObj [(''output'', JArr items)])]"


text \<open>
  Deterministic drivers of the panel: the events effect for a new event list, a photo
  handed over by the modal, and the session effect for \<open>isSessionActive = false\<close>
  (with a cleanup request, if any, that succeeds).
\<close>

definition receive_events :: "json list \<Rightarrow> panel \<Rightarrow> panel" where
  "receive_events evs p = p\<lparr>ui := fst (events_effect (Some evs) (ui p))\<rparr>"

definition photo_from_modal :: "string \<Rightarrow> panel \<Rightarrow> panel" where
  "photo_from_modal img p =
     p\<lparr>ui := fst (handlePhotoTaken_begin img (ui p)),
       in_flight := (props_channel p, props_active p) # in_flight p,
       issued := issued p @ snd (handlePhotoTaken_begin img (ui p))\<rparr>"

definition end_session :: "panel \<Rightarrow> panel" where
  "end_session p =
     p\<lparr>ui := fst (session_effect False (Inr ()) (ui p)),
       props_active := False,
       issued := issued p @ snd (session_effect False (Inr ()) (ui p))\<rparr>"

definition camera_requested_panel :: panel where
  "camera_requested_panel =
     receive_events [direct_event ''take_photo''] (mount True (Some (opens_at 0)))"

definition analyzing_panel :: panel where
  "analyzing_panel = photo_from_modal ''test-image-url'' camera_requested_panel"

definition reentered_panel :: panel where
  "reentered_panel = receive_events [direct_event ''take_photo''] analyzing_panel"

definition second_capture_panel :: panel where
  "second_capture_panel = photo_from_modal ''second-image-url'' reentered_panel"

definition session_ended_panel :: panel where
  "session_ended_panel = end_session analyzing_panel"

section \<open>Delivery: the retry loop\<close>

declare sendToModel_loop.simps [simp del]

lemma loop_opens:
  "a \<le> k \<Longrightarrow> k < maxAttempts \<Longrightarrow> ch k = Open \<Longrightarrow> (\<forall>i. a \<le> i \<and> i < k \<longrightarrow> ch i \<noteq> Open) \<Longrightarrow>
   sendToModel_loop (Some ch) True txt a = (backoff a k @ delivery txt, Inr ())"
proof (induction "k - a" arbitrary: a)
  case 0
  then have "a = k" by simp
  with 0 show ?case
    by (subst sendToModel_loop.simps) (simp add: backoff_def delivery_def)
next
  case (Suc d)
  then have lt: "a < k" and d: "d = k - (a + 1)" and le: "a + 1 \<le> k" by simp_all
  from Suc.prems lt have closed: "ch a \<noteq> Open" by simp
  have "sendToModel_loop (Some ch) True txt (a + 1) = (backoff (a + 1) k @ delivery txt, Inr ())"
    using Suc.hyps(1)[OF d le] Suc.prems by simp
  then have rest: "sendToModel_loop (Some ch) True txt (Suc a) = (backoff (Suc a) k @ delivery txt, Inr ())"
    by simp
  have bk: "backoff a k = Wait (baseDelay * 2 ^ a) # backoff (Suc a) k"
    using lt by (simp add: backoff_def upt_conv_Cons)
  from lt Suc.prems(2) have "a < maxAttempts" by simp
  then show ?case
    by (subst sendToModel_loop.simps) (simp add: closed rest bk Let_def)
qed

lemma loop_never:
  "a \<le> maxAttempts \<Longrightarrow> (\<forall>i. a \<le> i \<and> i < maxAttempts \<longrightarrow> ch i \<noteq> Open) \<Longrightarrow>
   sendToModel_loop (Some ch) True txt a = (backoff a maxAttempts, Inl channel_unavailable)"
proof (induction "maxAttempts - a" arbitrary: a)
  case 0
  then have "a = maxAttempts" by simp
  then show ?case
    by (subst sendToModel_loop.simps) (simp add: backoff_def)
next
  case (Suc d)
  then have lt: "a < maxAttempts" and d: "d = maxAttempts - (a + 1)" and le: "a + 1 \<le> maxAttempts" by simp_all
  from Suc.prems lt have closed: "ch a \<noteq> Open" by simp
  have "sendToModel_loop (Some ch) True txt (a + 1) = (backoff (a + 1) maxAttempts, Inl channel_unavailable)"
    using Suc.hyps(1)[OF d le] Suc.prems by simp
  then have rest: "sendToModel_loop (Some ch) True txt (Suc a) = (backoff (Suc a) maxAttempts, Inl channel_unavailable)"
    by simp
  have bk: "backoff a maxAttempts = Wait (baseDelay * 2 ^ a) # backoff (Suc a) maxAttempts"
    using lt by (simp add: backoff_def upt_conv_Cons)
  show ?case
    by (subst sendToModel_loop.simps) (simp add: lt closed rest bk Let_def)
qed

lemma total_wait_append: "total_wait (xs @ ys) = total_wait xs + total_wait ys"
  by (induction xs rule: total_wait.induct) simp_all

lemma sent_append: "sent (xs @ ys) = sent xs @ sent ys"
  by (induction xs rule: sent.induct) simp_all

lemma total_wait_backoff: "total_wait (backoff a k) = (\<Sum>i = a..<k. baseDelay * 2 ^ i)"
proof (induction k)
  case 0 show ?case by (simp add: backoff_def)
next
  case (Suc k)
  show ?case
  proof (cases "a \<le> k")
    case True
    then have "backoff a (Suc k) = backoff a k @ [Wait (baseDelay * 2 ^ k)]"
      by (simp add: backoff_def)
    with Suc True show ?thesis by (simp add: total_wait_append)
  next
    case False then show ?thesis by (simp add: backoff_def)
  qed
qed

lemma sent_backoff: "sent (backoff a k) = []"
  by (induction k) (auto simp: backoff_def sent_append)

lemma backoff_all: "backoff 0 5 = [Wait 1000, Wait 2000, Wait 4000, Wait 8000, Wait 16000]"
  by (simp add: backoff_def baseDelay_def upt_rec)

text \<open>
  Claim C1. When the channel exists, the session flag is set and the channel's
  \<open>readyState\<close> is \<open>open\<close> for the first time on check \<open>N\<close> (\<open>1 \<le> N \<le> 5\<close>),
  \<open>sendToModel\<close> waits \<open>1000 * 2^i\<close> ms after each failed check \<open>i = 0, ..., N - 2\<close>,
  then sends exactly the function result, the assistant message and the speech trigger,
  in this order, and returns: nothing follows the three sends, and the waits add up to
  the sum of \<open>1000 * 2^i\<close> over \<open>i < N - 1\<close> (no wait for \<open>N = 1\<close>).
\<close>

theorem sendToModel_opens_on_Nth_check:
  assumes "1 \<le> N" and "N \<le> 5" and "ch (N - 1) = Open" and "\<forall>i < N - 1. ch i \<noteq> Open"
  shows "sendToModel (Some ch) True txt =
           (map (\<lambda>i. Wait (1000 * 2 ^ i)) [0..<N - 1] @
            [Send function_result_event, Send (assistant_message_event txt), Send (speech_event txt)],
            Inr ()) \<and>
         sent (fst (sendToModel (Some ch) True txt)) =
           [function_result_event, assistant_message_event txt, speech_event txt] \<and>
         total_wait (fst (sendToModel (Some ch) True txt)) = (\<Sum>i = 0..<N - 1. 1000 * 2 ^ i)"
proof -
  from assms have k: "N - 1 < maxAttempts" by (simp add: maxAttempts_def)
  from assms(4) have closed: "\<forall>i. 0 \<le> i \<and> i < N - 1 \<longrightarrow> ch i \<noteq> Open" by simp
  have run: "sendToModel (Some ch) True txt = (backoff 0 (N - 1) @ delivery txt, Inr ())"
    unfolding sendToModel_def using loop_opens [OF _ k assms(3) closed] by simp
  have 1: "backoff 0 (N - 1) = map (\<lambda>i. Wait (1000 * 2 ^ i)) [0..<N - 1]"
    by (simp add: backoff_def baseDelay_def)
  have 2: "sent (backoff 0 (N - 1) @ delivery txt) = [function_result_event, assistant_message_event txt, speech_event txt]"
    by (simp add: sent_append sent_backoff delivery_def)
  have 3: "total_wait (backoff 0 (N - 1) @ delivery txt) = (\<Sum>i = 0..<N - 1. 1000 * 2 ^ i)"
    by (simp add: total_wait_append total_wait_backoff delivery_def baseDelay_def)
  from run 1 2 3 show ?thesis by (simp add: delivery_def)
qed

theorem sendToModel_opens_on_Nth_check_witness:
  "(1::nat) \<le> 3 \<and> (3::nat) \<le> 5 \<and>
   sendToModel (Some (\<lambda>i. if i = 2 then Open else Connecting)) True (JStr ''A cup on a table.'') =
     ([Wait 1000, Wait 2000, Send function_result_event,
       Send (assistant_message_event (JStr ''A cup on a table.'')),
       Send (speech_event (JStr ''A cup on a table.''))], Inr ()) \<and>
   total_wait (fst (sendToModel (Some (\<lambda>i. if i = 2 then Open else Connecting)) True
     (JStr ''A cup on a table.''))) = 3000"
  using sendToModel_opens_on_Nth_check
    [of 3 "\<lambda>i. if i = 2 then Open else Connecting" "JStr ''A cup on a table.''"]
  by (simp add: upt_rec)


section \<open>The analysis request and the handler's error path\<close>

lemma analyze_settles: "\<exists>t r. analyzeWithTimeout fetched = Settles t r"
  by (cases fetched) (auto simp: analyzeWithTimeout_def promise_race_def timeoutPromise_def)

lemma handlePhotoTaken_resumes:
  "\<exists>s' acts. handlePhotoTaken dc a img fetched s = Some (s', acts)"
  using analyze_settles [of fetched]
  by (auto simp: handlePhotoTaken_def Let_def)

lemma analyze_late:
  "VISION_TIMEOUT \<le> t \<Longrightarrow> analyzeWithTimeout (Settles t r) = timeoutPromise"
  by (simp add: analyzeWithTimeout_def promise_race_def timeoutPromise_def)

lemma analyze_never: "analyzeWithTimeout Never = timeoutPromise"
  by (simp add: analyzeWithTimeout_def promise_race_def timeoutPromise_def)

lemma analyze_in_time:
  "t < VISION_TIMEOUT \<Longrightarrow> analyzeWithTimeout (Settles t r) = Settles t r"
  by (simp add: analyzeWithTimeout_def promise_race_def timeoutPromise_def)

lemma catch_timeout:
  "handlePhotoTaken_catch dc (Error ''Vision analysis timeout'') s =
     (s\<lparr>isAnalyzing := False, analysisError := Some ''Vision analysis timed out. Please try again.''\<rparr>,
      LogError ''Vision analysis failed:'' (Error ''Vision analysis timeout'') #
      (case dc of None \<Rightarrow> [] | Some ch \<Rightarrow>
         if ch 0 = Open then
           [Send (assistant_message_event (JStr ''Vision analysis timed out. Please try again.'')),
            Send (speech_event (JStr (''I'' @ [CHR 0x27] @ ''m sorry, but the vision analysis timed out. '' @
                            ''Please try taking another photo.'')))]
         else []))"
  by (simp add: handlePhotoTaken_catch_def Let_def split: option.split)

lemma catch_other:
  "message err \<noteq> ''Vision analysis timeout'' \<Longrightarrow>
   handlePhotoTaken_catch dc err s =
     (s\<lparr>isAnalyzing := False, analysisError := Some (message err)\<rparr>,
      [LogError ''Vision analysis failed:'' err])"
  by (simp add: handlePhotoTaken_catch_def Let_def)

lemma function_result_not_apology:
  "function_result_event \<noteq> assistant_message_event x" "function_result_event \<noteq> speech_event y"
  by (simp_all add: function_result_event_def assistant_message_event_def speech_event_def)

lemma catch_no_function_result:
  "function_result_event \<notin> set (sent (snd (handlePhotoTaken_catch dc err s)))"
  by (simp add: handlePhotoTaken_catch_def Let_def function_result_not_apology split: option.split)

lemma catch_sets_error:
  "isAnalyzing (fst (handlePhotoTaken_catch dc err s)) = False"
  "analysisError (fst (handlePhotoTaken_catch dc err s)) \<noteq> None"
  by (simp_all add: handlePhotoTaken_catch_def Let_def split: option.split)


lemma get_prop_opt:
  "get_prop v p = (if v = JUndefined then Inl (cannot_read ''undefined'' p)
                   else if v = JNull then Inl (cannot_read ''null'' p)
                   else Inr (opt_prop v p))"
  by (cases v) simp_all

lemma background_never:
  "\<forall>i<5. ch i \<noteq> Open \<Longrightarrow>
   sendToModel_background (Some ch) True txt =
     [Wait 1000, Wait 2000, Wait 4000, Wait 8000, Wait 16000,
      LogError ''Failed to send to model:'' channel_unavailable]"
  using loop_never [of 0 ch "txt"]
  by (simp add: sendToModel_background_def sendToModel_def backoff_all maxAttempts_def)

lemma background_open:
  "ch 0 = Open \<Longrightarrow> sendToModel_background (Some ch) True txt = delivery txt"
  by (simp add: sendToModel_background_def sendToModel_def sendToModel_loop.simps [of _ _ _ 0]
      maxAttempts_def delivery_def)

text \<open>
  Claim C2. When the channel exists and the session flag is set but none of the five
  checks finds \<open>readyState\<close> \<open>open\<close>, \<open>sendToModel\<close> waits after each check
  (1, 2, 4, 8 and 16 seconds), sends nothing and rejects with the channel-unavailable
  error. In \<open>handlePhotoTaken\<close> the rejection ends in the \<open>console.error\<close> line of
  the \<open>catch\<close> handler: the handler's result is the state it had set before the
  delivery started (the same state as after a delivery that succeeds at once), so
  camera, analyzing flag, error text and image are untouched by the failure, and the
  handler itself completes normally.
\<close>

theorem sendToModel_channel_never_opens:
  assumes closed: "\<forall>i<5. ch i \<noteq> Open"
    and body: "json_body resp = Inr analysis"
    and msg: "get_prop analysis ''message'' = Inr msg"
    and content: "get_prop msg ''content'' = Inr txt"
  shows "sendToModel (Some ch) True txt =
           ([Wait 1000, Wait 2000, Wait 4000, Wait 8000, Wait 16000], Inl channel_unavailable) \<and>
         sent (fst (sendToModel (Some ch) True txt)) = [] \<and>
         handlePhotoTaken_resume (Some ch) True (Inr resp) s =
           (s\<lparr>isAnalyzing := False\<rparr>,
            [Wait 1000, Wait 2000, Wait 4000, Wait 8000, Wait 16000,
             LogError ''Failed to send to model:'' channel_unavailable]) \<and>
         fst (handlePhotoTaken_resume (Some ch) True (Inr resp) s) =
           fst (handlePhotoTaken_resume (Some (opens_at 0)) True (Inr resp) s)"
proof -
  have run: "sendToModel (Some ch) True txt =
      ([Wait 1000, Wait 2000, Wait 4000, Wait 8000, Wait 16000], Inl channel_unavailable)"
    using loop_never [of 0 ch "txt"] closed
    by (simp add: sendToModel_def backoff_all maxAttempts_def)
  have resume: "handlePhotoTaken_resume dc True (Inr resp) s =
      (s\<lparr>isAnalyzing := False\<rparr>, sendToModel_background dc True txt)" for dc
    by (simp add: handlePhotoTaken_resume_def body msg content)
  show ?thesis
    by (simp add: run resume background_never [OF closed])
qed

theorem sendToModel_channel_never_opens_witness:
  "sendToModel (Some never_open) True (JStr ''A cup on a table.'') =
     ([Wait 1000, Wait 2000, Wait 4000, Wait 8000, Wait 16000], Inl channel_unavailable) \<and>
   handlePhotoTaken_resume (Some never_open) True
       (Inr (analysis_response 200 (JObj [(''content'', JStr ''A cup on a table.'')]))) analyzing_ui =
     (analyzing_ui\<lparr>isAnalyzing := False\<rparr>,
      [Wait 1000, Wait 2000, Wait 4000, Wait 8000, Wait 16000,
       LogError ''Failed to send to model:'' channel_unavailable])"
  using sendToModel_channel_never_opens
    [of never_open "analysis_response 200 (JObj [(''content'', JStr ''A cup on a table.'')])"
        "JObj [(''message'', JObj [(''content'', JStr ''A cup on a table.'')])]"
        "JObj [(''content'', JStr ''A cup on a table.'')]" "JStr ''A cup on a table.''" analyzing_ui]
  by (simp add: never_open_def analysis_response_def)

text \<open>
  Claim C4. \<open>analyzeWithTimeout\<close> races the request against a timer of
  \<open>VISION_TIMEOUT = 10000\<close> ms. When the request settles strictly later than that,
  whatever it settles with, the race rejects with \<open>Vision analysis timeout\<close>;
  \<open>handlePhotoTaken\<close> then behaves exactly as if the request had never settled: it
  takes the \<open>catch\<close> block, sets the timeout error text and sends no function
  result.
\<close>

theorem analyzeWithTimeout_late_result:
  assumes late: "VISION_TIMEOUT < t"
  shows "VISION_TIMEOUT = 10000 \<and>
         analyzeWithTimeout (Settles t r) =
           Settles 10000 (Inl (Error ''Vision analysis timeout'')) \<and>
         handlePhotoTaken dc a img (Settles t r) s = handlePhotoTaken dc a img Never s \<and>
         handlePhotoTaken dc a img (Settles t r) s =
           Some (s\<lparr>showCamera := False, currentImage := Some img, isAnalyzing := False,
                   analysisError := Some ''Vision analysis timed out. Please try again.''\<rparr>,
                 snd (handlePhotoTaken_begin img s) @
                 snd (handlePhotoTaken_catch dc (Error ''Vision analysis timeout'')
                        (fst (handlePhotoTaken_begin img s)))) \<and>
         function_result_event \<notin>
           set (sent (snd (handlePhotoTaken_catch dc (Error ''Vision analysis timeout'')
                             (fst (handlePhotoTaken_begin img s)))))"
proof -
  have 1: "analyzeWithTimeout (Settles t r) = Settles 10000 (Inl (Error ''Vision analysis timeout''))"
    using analyze_late [OF less_imp_le [OF late]] by (simp add: timeoutPromise_def VISION_TIMEOUT_def)
  have 2: "analyzeWithTimeout Never = Settles 10000 (Inl (Error ''Vision analysis timeout''))"
    by (simp add: analyze_never timeoutPromise_def VISION_TIMEOUT_def)
  have 3: "fst (handlePhotoTaken_catch dc (Error ''Vision analysis timeout'')
                  (fst (handlePhotoTaken_begin img s))) =
           s\<lparr>showCamera := False, currentImage := Some img, isAnalyzing := False,
             analysisError := Some ''Vision analysis timed out. Please try again.''\<rparr>"
    by (simp add: catch_timeout handlePhotoTaken_begin_def)
  have 4: "handlePhotoTaken dc a img p s =
      Some (fst (handlePhotoTaken_catch dc (Error ''Vision analysis timeout'')
                  (fst (handlePhotoTaken_begin img s))),
            snd (handlePhotoTaken_begin img s) @
            snd (handlePhotoTaken_catch dc (Error ''Vision analysis timeout'')
                        (fst (handlePhotoTaken_begin img s))))"
    if "analyzeWithTimeout p = Settles 10000 (Inl (Error ''Vision analysis timeout''))" for p
    using that by (simp add: handlePhotoTaken_def handlePhotoTaken_resume_def Let_def)
  show ?thesis
    using 4 [OF 1] 4 [OF 2] by (simp add: 1 3 VISION_TIMEOUT_def catch_no_function_result)
qed

theorem analyzeWithTimeout_late_result_witness:
  "VISION_TIMEOUT < 11000 \<and>
   analyzeWithTimeout
     (Settles 11000 (Inr (analysis_response 200 (JObj [(''content'', JStr ''A cup on a table.'')])))) =
     Settles 10000 (Inl (Error ''Vision analysis timeout'')) \<and>
   handlePhotoTaken (Some (opens_at 0)) True ''test-image-url''
     (Settles 11000 (Inr (analysis_response 200 (JObj [(''content'', JStr ''A cup on a table.'')]))))
     initial_ui =
   handlePhotoTaken (Some (opens_at 0)) True ''test-image-url'' Never initial_ui"
proof -
  have late: "VISION_TIMEOUT < 11000" by (simp add: VISION_TIMEOUT_def)
  show ?thesis
    using late analyzeWithTimeout_late_result [OF late,
      of "Inr (analysis_response 200 (JObj [(''content'', JStr ''A cup on a table.'')]))"
         "Some (opens_at 0)" True "''test-image-url''" initial_ui]
    by simp
qed


lemma catch_state:
  "fst (handlePhotoTaken_catch dc err s) =
     s\<lparr>isAnalyzing := False, analysisError := Some (shown_text err)\<rparr>"
  by (simp add: handlePhotoTaken_catch_def shown_text_def Let_def split: option.split)

lemma catch_analyzing_cleared:
  "handlePhotoTaken_catch dc err (s\<lparr>isAnalyzing := False\<rparr>) = handlePhotoTaken_catch dc err s"
  by (simp add: handlePhotoTaken_catch_def Let_def split: option.split)

lemma cannot_read_not_timeout:
  "message (cannot_read what p) \<noteq> ''Vision analysis timeout''"
  by (simp add: cannot_read_def)

lemma resume_lacks_message:
  assumes "lacks_message resp"
  shows "handlePhotoTaken_resume dc a (Inr resp) s = handlePhotoTaken_catch dc (raised_error resp) s"
proof (cases "json_body resp")
  case (Inl err)
  then show ?thesis by (simp add: handlePhotoTaken_resume_def raised_error_def)
next
  case (Inr analysis)
  with assms have bad: "nullish analysis \<or> nullish (opt_prop analysis ''message'')"
    by (simp add: lacks_message_def)
  show ?thesis
  proof (cases "nullish analysis")
    case True
    then show ?thesis using Inr
      by (auto simp: handlePhotoTaken_resume_def raised_error_def nullish_def Let_def
          catch_analyzing_cleared)
  next
    case False
    with bad have "nullish (opt_prop analysis ''message'')" by simp
    with False show ?thesis using Inr
      by (auto simp: handlePhotoTaken_resume_def raised_error_def nullish_def Let_def
          get_prop_opt catch_analyzing_cleared)
  qed
qed

lemma parsed_error_not_timeout:
  "json_body resp = Inr analysis \<Longrightarrow> message (raised_error resp) \<noteq> ''Vision analysis timeout''"
  by (simp add: raised_error_def cannot_read_not_timeout)

lemma resume_has_message:
  assumes "\<not> lacks_message resp"
  shows "handlePhotoTaken_resume dc a (Inr resp) s =
           (s\<lparr>isAnalyzing := False\<rparr>, sendToModel_background dc a (content_of resp))"
proof (cases "json_body resp")
  case (Inl err)
  with assms show ?thesis by (simp add: lacks_message_def)
next
  case (Inr analysis)
  with assms have "\<not> nullish analysis" "\<not> nullish (opt_prop analysis ''message'')"
    by (simp_all add: lacks_message_def)
  then show ?thesis using Inr
    by (simp add: handlePhotoTaken_resume_def nullish_def Let_def get_prop_opt content_of_def)
qed

text \<open>
  Claim C8, as stated, fails. The claim says that a response arriving in time with a
  non-success status, or with a body that has no \<open>message.content\<close>, takes the error
  path. The handler never reads the status, and a body whose \<open>message\<close> object lacks
  \<open>content\<close> raises nothing: with status 200 and the body
  \<open>{message: {role: "assistant"}}\<close> no error text is set and the three messages are
  sent with \<open>undefined\<close> as text; with status 500 and a body that does carry
  \<open>message.content\<close> the text is delivered as a success.
\<close>

theorem handlePhotoTaken_status_and_body_counterexample:
  "handlePhotoTaken (Some (opens_at 0)) True ''test-image-url''
     (Settles 500 (Inr (analysis_response 200 (JObj [(''role'', JStr ''assistant'')])))) initial_ui =
     Some (\<lparr>showCamera = False, currentImageFilename = None, isAnalyzing = False,
            currentImage = Some ''test-image-url'', analysisError = None\<rparr>,
           [Fetch ''/analyze-image'' (JObj [(''imageData'', JStr ''test-image-url'')]),
            Send function_result_event,
            Send (assistant_message_event JUndefined),
            Send (speech_event JUndefined)]) \<and>
   handlePhotoTaken (Some (opens_at 0)) True ''test-image-url''
     (Settles 500 (Inr (analysis_response 500 (JObj [(''content'', JStr ''A cup on a table.'')]))))
     initial_ui =
     Some (\<lparr>showCamera = False, currentImageFilename = None, isAnalyzing = False,
            currentImage = Some ''test-image-url'', analysisError = None\<rparr>,
           [Fetch ''/analyze-image'' (JObj [(''imageData'', JStr ''test-image-url'')]),
            Send function_result_event,
            Send (assistant_message_event (JStr ''A cup on a table.'')),
            Send (speech_event (JStr ''A cup on a table.''))])"
  by (simp add: handlePhotoTaken_def analyze_in_time VISION_TIMEOUT_def
      handlePhotoTaken_resume_def handlePhotoTaken_begin_def analysis_response_def
      initial_ui_def background_open opens_at_def delivery_def Let_def)

text \<open>
  Claim C8, amended. A response that settles strictly before the 10-second timer is
  what the race yields. If its body cannot be parsed, or the parsed body is \<open>null\<close>
  or has no \<open>message\<close> member, the \<open>catch\<close> block runs on the error raised
  (\<open>raised_error\<close>): the analyzing flag is cleared, the error text is that error's
  message, the error is logged and nothing is sent, so no function result either. (Only
  a rejection of \<open>response.json()\<close> whose message were the timer's would get the
  dedicated timeout text instead; the TypeError of a parsed body never has that
  message.) Otherwise the handler treats the response as a success, whatever
  \<open>message.content\<close> is. The HTTP status has no influence on the outcome.
\<close>

theorem handlePhotoTaken_unreadable_response:
  "(t < VISION_TIMEOUT \<longrightarrow> analyzeWithTimeout (Settles t (Inr resp)) = Settles t (Inr resp)) \<and>
   (lacks_message resp \<longrightarrow>
      handlePhotoTaken_resume dc a (Inr resp) s =
        handlePhotoTaken_catch dc (raised_error resp) s \<and>
      fst (handlePhotoTaken_resume dc a (Inr resp) s) =
        s\<lparr>isAnalyzing := False, analysisError := Some (shown_text (raised_error resp))\<rparr> \<and>
      function_result_event \<notin> set (sent (snd (handlePhotoTaken_resume dc a (Inr resp) s))) \<and>
      (message (raised_error resp) \<noteq> ''Vision analysis timeout'' \<longrightarrow>
         handlePhotoTaken_resume dc a (Inr resp) s =
           (s\<lparr>isAnalyzing := False, analysisError := Some (message (raised_error resp))\<rparr>,
            [LogError ''Vision analysis failed:'' (raised_error resp)]))) \<and>
   (\<not> isl (json_body resp) \<longrightarrow>
      message (raised_error resp) \<noteq> ''Vision analysis timeout'') \<and>
   (\<not> lacks_message resp \<longrightarrow>
      handlePhotoTaken_resume dc a (Inr resp) s =
        (s\<lparr>isAnalyzing := False\<rparr>, sendToModel_background dc a (content_of resp))) \<and>
   handlePhotoTaken_resume dc a (Inr (resp\<lparr>status := code\<rparr>)) s =
     handlePhotoTaken_resume dc a (Inr resp) s"
proof -
  have bad: "handlePhotoTaken_resume dc a (Inr resp) s =
        handlePhotoTaken_catch dc (raised_error resp) s \<and>
      fst (handlePhotoTaken_resume dc a (Inr resp) s) =
        s\<lparr>isAnalyzing := False, analysisError := Some (shown_text (raised_error resp))\<rparr> \<and>
      function_result_event \<notin> set (sent (snd (handlePhotoTaken_resume dc a (Inr resp) s))) \<and>
      (message (raised_error resp) \<noteq> ''Vision analysis timeout'' \<longrightarrow>
         handlePhotoTaken_resume dc a (Inr resp) s =
           (s\<lparr>isAnalyzing := False, analysisError := Some (message (raised_error resp))\<rparr>,
            [LogError ''Vision analysis failed:'' (raised_error resp)]))"
    if "lacks_message resp"
    by (simp add: resume_lacks_message [OF that] catch_state catch_no_function_result catch_other)
  have parsed: "message (raised_error resp) \<noteq> ''Vision analysis timeout''"
    if "\<not> isl (json_body resp)"
  proof (cases "json_body resp")
    case (Inl err)
    with that show ?thesis by simp
  next
    case (Inr analysis)
    then show ?thesis by (rule parsed_error_not_timeout)
  qed
  have status: "handlePhotoTaken_resume dc a (Inr (resp\<lparr>status := code\<rparr>)) s =
     handlePhotoTaken_resume dc a (Inr resp) s"
    by (simp add: handlePhotoTaken_resume_def)
  have ok: "handlePhotoTaken_resume dc a (Inr resp) s =
        (s\<lparr>isAnalyzing := False\<rparr>, sendToModel_background dc a (content_of resp))"
    if "\<not> lacks_message resp"
    by (rule resume_has_message [OF that])
  show ?thesis
    using bad parsed status ok analyze_in_time [of t "Inr resp"] by blast
qed

theorem handlePhotoTaken_unreadable_response_witness:
  "500 < VISION_TIMEOUT \<and> lacks_message server_error_response \<and>
   \<not> lacks_message (analysis_response 200 (JObj [(''role'', JStr ''assistant'')])) \<and>
   message (raised_error server_error_response) \<noteq> ''Vision analysis timeout'' \<and>
   analyzeWithTimeout (Settles 500 (Inr server_error_response)) =
     Settles 500 (Inr server_error_response) \<and>
   handlePhotoTaken_resume (Some (opens_at 0)) True (Inr server_error_response) analyzing_ui =
     (analyzing_ui\<lparr>isAnalyzing := False,
        analysisError := Some (''Cannot read properties of undefined (reading '' @
                               [CHR 0x27] @ ''content'' @ [CHR 0x27] @ '')'')\<rparr>,
      [LogError ''Vision analysis failed:''
         (TypeError (''Cannot read properties of undefined (reading '' @
                     [CHR 0x27] @ ''content'' @ [CHR 0x27] @ '')''))]) \<and>
   handlePhotoTaken_resume (Some (opens_at 0)) True
     (Inr (analysis_response 200 (JObj [(''role'', JStr ''assistant'')]))) analyzing_ui =
     (analyzing_ui\<lparr>isAnalyzing := False\<rparr>,
      sendToModel_background (Some (opens_at 0)) True JUndefined)"
proof -
  have 1: "500 < VISION_TIMEOUT" by (simp add: VISION_TIMEOUT_def)
  have 2: "lacks_message server_error_response"
    by (simp add: lacks_message_def server_error_response_def nullish_def)
  have 3: "\<not> lacks_message (analysis_response 200 (JObj [(''role'', JStr ''assistant'')]))"
    by (simp add: lacks_message_def analysis_response_def nullish_def)
  have 4: "content_of (analysis_response 200 (JObj [(''role'', JStr ''assistant'')])) = JUndefined"
    by (simp add: content_of_def analysis_response_def)
  have 5: "raised_error server_error_response =
      TypeError (''Cannot read properties of undefined (reading '' @
                     [CHR 0x27] @ ''content'' @ [CHR 0x27] @ '')'')"
    by (simp add: raised_error_def server_error_response_def cannot_read_def)
  have 6: "\<not> isl (json_body server_error_response)"
    by (simp add: server_error_response_def)
  note bad = handlePhotoTaken_unreadable_response
        [of 500 server_error_response "Some (opens_at 0)" True analyzing_ui 500]
  note good = handlePhotoTaken_unreadable_response
        [of 500 "analysis_response 200 (JObj [(''role'', JStr ''assistant'')])"
            "Some (opens_at 0)" True analyzing_ui 200]
  from bad 1 have 7: "analyzeWithTimeout (Settles 500 (Inr server_error_response)) =
     Settles 500 (Inr server_error_response)" by blast
  from bad 2 6 have 8: "message (raised_error server_error_response) \<noteq> ''Vision analysis timeout''"
    by blast
  from bad 2 8 have "handlePhotoTaken_resume (Some (opens_at 0)) True
        (Inr server_error_response) analyzing_ui =
      (analyzing_ui\<lparr>isAnalyzing := False,
         analysisError := Some (message (raised_error server_error_response))\<rparr>,
       [LogError ''Vision analysis failed:'' (raised_error server_error_response)])"
    by blast
  then have 9: "handlePhotoTaken_resume (Some (opens_at 0)) True
        (Inr server_error_response) analyzing_ui =
     (analyzing_ui\<lparr>isAnalyzing := False,
        analysisError := Some (''Cannot read properties of undefined (reading '' @
                               [CHR 0x27] @ ''content'' @ [CHR 0x27] @ '')'')\<rparr>,
      [LogError ''Vision analysis failed:''
         (TypeError (''Cannot read properties of undefined (reading '' @
                     [CHR 0x27] @ ''content'' @ [CHR 0x27] @ '')''))])"
    by (simp only: 5 message.simps)
  from good 3 have 10: "handlePhotoTaken_resume (Some (opens_at 0)) True
     (Inr (analysis_response 200 (JObj [(''role'', JStr ''assistant'')]))) analyzing_ui =
     (analyzing_ui\<lparr>isAnalyzing := False\<rparr>,
      sendToModel_background (Some (opens_at 0)) True JUndefined)"
    unfolding 4 [symmetric] by blast
  from 1 2 3 7 8 9 10 show ?thesis by blast
qed

declare spec_adapter_loop.simps [simp del]

lemma sendToModel_loop_is_adapter:
  "sendToModel_loop dc a t k =
     spec_adapter_loop [function_result_event, assistant_message_event t, speech_event t] dc a k"
proof (induction dc a t k rule: sendToModel_loop.induct)
  case (1 dataChannel isSessionActive analysisText attempt)
  show ?case
  proof (cases "attempt < maxAttempts")
    case False
    then show ?thesis
      by (subst sendToModel_loop.simps, subst spec_adapter_loop.simps) (simp add: maxAttempts_def)
  next
    case True
    show ?thesis
    proof (cases dataChannel)
      case None
      with True show ?thesis
        by (subst sendToModel_loop.simps, subst spec_adapter_loop.simps) (simp add: maxAttempts_def)
    next
      case (Some ch)
      show ?thesis
      proof (cases "isSessionActive \<and> ch attempt \<noteq> Open")
        case False
        with True Some show ?thesis
          by (subst sendToModel_loop.simps, subst spec_adapter_loop.simps)
             (auto simp: maxAttempts_def)
      next
        case go: True
        then have "sendToModel_loop dataChannel isSessionActive analysisText (attempt + 1) =
            spec_adapter_loop
              [function_result_event, assistant_message_event analysisText,
               speech_event analysisText] dataChannel isSessionActive (attempt + 1)"
          using "1.IH" [OF True Some] by simp
        with True Some go show ?thesis
          by (subst sendToModel_loop.simps, subst spec_adapter_loop.simps)
             (simp add: maxAttempts_def baseDelay_def Let_def)
      qed
    qed
  qed
qed

lemma sendToModel_is_adapter:
  "sendToModel dc a t =
     spec_adapter [function_result_event, assistant_message_event t, speech_event t] dc a"
  by (simp add: sendToModel_def spec_adapter_def sendToModel_loop_is_adapter)

lemma adapter_opens_second:
  "spec_adapter msgs (Some (opens_at 1)) True = (Wait 1000 # map Send msgs, Inr ())"
  by (simp add: spec_adapter_def spec_adapter_loop.simps [of _ _ _ 0]
      spec_adapter_loop.simps [of _ _ _ "Suc 0"] opens_at_def)

lemma adapter_inactive:
  "spec_adapter msgs dc False = ([], Inr ())"
  by (simp add: spec_adapter_def spec_adapter_loop.simps [of _ _ _ 0] split: option.split)

text \<open>
  Claim C9, as stated, fails. The claim routes the apology through the Delivery Channel
  Adapter. On a channel that is not open at the first check and open at the second,
  the adapter delivers the two apology messages after one second; the \<open>catch\<close> block
  sends nothing. With the session flag false and the channel open the adapter ends
  silently; the \<open>catch\<close> block sends the apology.
\<close>

theorem timeout_apology_bypasses_adapter_counterexample:
  "spec_adapter apology_messages (Some (opens_at 1)) True =
     (Wait 1000 # map Send apology_messages, Inr ()) \<and>
   sent (snd (handlePhotoTaken_resume (Some (opens_at 1)) True
     (Inl (Error ''Vision analysis timeout'')) analyzing_ui)) = [] \<and>
   spec_adapter apology_messages (Some (opens_at 0)) False = ([], Inr ()) \<and>
   sent (snd (handlePhotoTaken_resume (Some (opens_at 0)) False
     (Inl (Error ''Vision analysis timeout'')) analyzing_ui)) = apology_messages"
proof -
  have unsent: "sent (snd (handlePhotoTaken_resume (Some (opens_at 1)) True
     (Inl (Error ''Vision analysis timeout'')) analyzing_ui)) = []"
    by (simp add: handlePhotoTaken_resume_def catch_timeout opens_at_def)
  have spoken: "sent (snd (handlePhotoTaken_resume (Some (opens_at 0)) False
     (Inl (Error ''Vision analysis timeout'')) analyzing_ui)) = apology_messages"
    by (simp add: handlePhotoTaken_resume_def catch_timeout opens_at_def apology_messages_def)
  show ?thesis
    by (intro conjI adapter_opens_second unsent adapter_inactive spoken)
qed

text \<open>
  Claim C9, amended. Every failure of the \<open>try\<close> block ends in the \<open>catch\<close>
  block, which does not use the adapter and does not read the session flag. For a
  failure whose message is \<open>Vision analysis timeout\<close> it sets the dedicated text
  \<open>Vision analysis timed out. Please try again.\<close> and reads the channel's
  \<open>readyState\<close> once: if the handle exists and the channel is open at that moment,
  exactly the two apology messages are sent, the assistant message and then the speech
  trigger, with no function result; otherwise nothing is sent, and there is no retry.
  A failure with any other message sets that message as error text and sends nothing.
\<close>

theorem timeout_apology:
  "handlePhotoTaken_resume dc a (Inl err) s = handlePhotoTaken_catch dc err s \<and>
   handlePhotoTaken_catch dc (Error ''Vision analysis timeout'') s =
     (s\<lparr>isAnalyzing := False,
        analysisError := Some ''Vision analysis timed out. Please try again.''\<rparr>,
      LogError ''Vision analysis failed:'' (Error ''Vision analysis timeout'') #
      (case dc of
         None \<Rightarrow> []
       | Some ch \<Rightarrow> if ch 0 = Open then map Send apology_messages else [])) \<and>
   function_result_event \<notin> set apology_messages \<and>
   (message err \<noteq> ''Vision analysis timeout'' \<longrightarrow>
      handlePhotoTaken_catch dc err s =
        (s\<lparr>isAnalyzing := False, analysisError := Some (message err)\<rparr>,
         [LogError ''Vision analysis failed:'' err]) \<and>
      sent (snd (handlePhotoTaken_catch dc err s)) = [])"
proof -
  have 1: "handlePhotoTaken_resume dc a (Inl err) s = handlePhotoTaken_catch dc err s"
    by (simp add: handlePhotoTaken_resume_def)
  have 2: "function_result_event \<notin> set apology_messages"
    using function_result_not_apology by (simp add: apology_messages_def)
  have 3: "sent (snd (handlePhotoTaken_catch dc err s)) = []"
    if "message err \<noteq> ''Vision analysis timeout''"
    by (simp add: catch_other [OF that])
  have 4: "handlePhotoTaken_catch dc (Error ''Vision analysis timeout'') s =
     (s\<lparr>isAnalyzing := False,
        analysisError := Some ''Vision analysis timed out. Please try again.''\<rparr>,
      LogError ''Vision analysis failed:'' (Error ''Vision analysis timeout'') #
      (case dc of
         None \<Rightarrow> []
       | Some ch \<Rightarrow> if ch 0 = Open then map Send apology_messages else []))"
    by (simp add: catch_timeout apology_messages_def split: option.split)
  show ?thesis
    using 1 2 3 4 catch_other [of err dc s] by blast
qed

theorem timeout_apology_witness:
  "message (Error ''Failed to fetch'') \<noteq> ''Vision analysis timeout'' \<and>
   handlePhotoTaken_catch (Some (opens_at 0)) (Error ''Failed to fetch'') analyzing_ui =
     (analyzing_ui\<lparr>isAnalyzing := False, analysisError := Some ''Failed to fetch''\<rparr>,
      [LogError ''Vision analysis failed:'' (Error ''Failed to fetch'')]) \<and>
   sent (snd (handlePhotoTaken_catch (Some (opens_at 0)) (Error ''Failed to fetch'')
     analyzing_ui)) = [] \<and>
   sent (snd (handlePhotoTaken_resume (Some (opens_at 0)) True
     (Inl (Error ''Vision analysis timeout'')) analyzing_ui)) = apology_messages"
proof -
  have 1: "message (Error ''Failed to fetch'') \<noteq> ''Vision analysis timeout''" by simp
  note other = timeout_apology
    [of "Some (opens_at 0)" True "Error ''Failed to fetch''" analyzing_ui]
  note timer = timeout_apology
    [of "Some (opens_at 0)" True "Error ''Vision analysis timeout''" analyzing_ui]
  from timer have "sent (snd (handlePhotoTaken_resume (Some (opens_at 0)) True
     (Inl (Error ''Vision analysis timeout'')) analyzing_ui)) = apology_messages"
    by (simp add: opens_at_def apology_messages_def)
  with 1 other show ?thesis by simp
qed

section \<open>The events effect against the specification's classifier\<close>

lemma is_function_call_eq:
  "is_function_call x =
     (if x = JUndefined then Inl (cannot_read ''undefined'' ''type'')
      else if x = JNull then Inl (cannot_read ''null'' ''type'')
      else Inr (marked_function_call x))"
  by (simp add: is_function_call_def get_prop_opt marked_function_call_def)

lemma array_some_raises:
  "scan_raises xs \<Longrightarrow> \<exists>err. array_some is_function_call xs = Inl err"
  by (induction xs) (auto simp: is_function_call_eq nullish_def)

lemma array_some_scans:
  "\<not> scan_raises xs \<Longrightarrow>
   array_some is_function_call xs = Inr (find marked_function_call xs \<noteq> None)"
  by (induction xs) (auto simp: is_function_call_eq nullish_def)

lemma array_find_raises:
  "scan_raises xs \<Longrightarrow> \<exists>err. array_find is_function_call xs = Inl err"
  by (induction xs) (auto simp: is_function_call_eq nullish_def)

lemma array_find_scans:
  "\<not> scan_raises xs \<Longrightarrow>
   array_find is_function_call xs =
     Inr (case find marked_function_call xs of None \<Rightarrow> JUndefined | Some x \<Rightarrow> x)"
  by (induction xs) (auto simp: is_function_call_eq nullish_def)

lemma opt_some_raises:
  "list_method_raises v \<Longrightarrow> \<exists>err. opt_some v = Inl err"
  by (cases v) (auto dest: array_some_raises)

lemma opt_some_scans:
  "\<not> list_method_raises v \<Longrightarrow>
   \<exists>b. opt_some v = Inr b \<and>
       truthy b = (find marked_function_call (output_collection v) \<noteq> None)"
  by (cases v) (auto simp: array_some_scans)

lemma opt_find_raises:
  "list_method_raises v \<Longrightarrow> \<exists>err. opt_find v = Inl err"
  by (cases v) (auto dest: array_find_raises)

lemma opt_find_scans:
  "\<not> list_method_raises v \<Longrightarrow>
   opt_find v =
     Inr (case find marked_function_call (output_collection v) of
            None \<Rightarrow> JUndefined | Some x \<Rightarrow> x)"
  by (cases v) (auto simp: array_find_scans)


lemma function_call_event_raises:
  assumes "opt_prop e ''type'' = JStr ''response.done''" and "list_method_raises (event_output e)"
  shows "\<exists>err. function_call_event e = Inl err"
  using opt_some_raises [OF assms(2)] assms(1)
  by (auto simp: function_call_event_def Let_def)

lemma function_call_event_matches:
  assumes "\<not> (opt_prop e ''type'' = JStr ''response.done'' \<and> list_method_raises (event_output e))"
  shows "function_call_event e = Inr (any_shape e)"
proof (cases "opt_prop e ''type'' = JStr ''response.done''")
  case True
  with assms have "\<not> list_method_raises (event_output e)" by simp
  from opt_some_scans [OF this] True show ?thesis
    by (auto simp: function_call_event_def any_shape_def Let_def)
next
  case False
  then show ?thesis
    by (auto simp: function_call_event_def any_shape_def marked_function_call_def Let_def)
qed

lemma functionName_raises:
  assumes "\<not> truthy (opt_prop (opt_prop e ''function'') ''name'')"
    and "\<not> truthy (opt_prop (event_output e) ''name'')"
    and "list_method_raises (event_output e)"
  shows "\<exists>err. functionName e = Inl err"
  using opt_find_raises [OF assms(3)] assms(1,2)
  by (auto simp: functionName_def)

lemma functionName_resolves:
  assumes "truthy (opt_prop (opt_prop e ''function'') ''name'') \<or>
           truthy (opt_prop (event_output e) ''name'') \<or>
           \<not> list_method_raises (event_output e)"
  shows "\<exists>n. functionName e = Inr n \<and>
             (n = JStr ''take_photo'' \<longleftrightarrow> spec_function_name e = JStr ''take_photo'')"
proof (cases "truthy (opt_prop (opt_prop e ''function'') ''name'')")
  case True
  then show ?thesis
    by (simp add: functionName_def spec_function_name_def spec_name_locations_def)
next
  case direct: False
  show ?thesis
  proof (cases "truthy (opt_prop (event_output e) ''name'')")
    case True
    with direct show ?thesis
      by (simp add: functionName_def spec_function_name_def spec_name_locations_def)
  next
    case nested: False
    with direct assms have ok: "\<not> list_method_raises (event_output e)" by simp
    have third: "opt_prop (case find marked_function_call (output_collection (event_output e)) of
                    None \<Rightarrow> JUndefined | Some x \<Rightarrow> x) ''name'' =
          (case find marked_function_call (output_collection (event_output e)) of
             None \<Rightarrow> JUndefined | Some el \<Rightarrow> opt_prop el ''name'')"
      by (simp split: option.split)
    show ?thesis
      using direct nested
      by (auto simp: functionName_def spec_function_name_def spec_name_locations_def
          opt_find_scans [OF ok] third)
  qed
qed


lemma events_effect_not_nullish:
  "\<not> nullish e \<Longrightarrow>
   events_effect (Some (e # es)) s =
     (case function_call_event e of
        Inl err \<Rightarrow> (s, Some err)
      | Inr found \<Rightarrow>
          if found then
            (case functionName e of
               Inl err \<Rightarrow> (s, Some err)
             | Inr n \<Rightarrow>
                 if n = JStr ''take_photo''
                 then (s\<lparr>showCamera := True, analysisError := None\<rparr>, None)
                 else (s, None))
          else (s, None))"
  by (simp add: events_effect_def get_prop_opt nullish_def)

lemma events_effect_nullish:
  "nullish e \<Longrightarrow> \<exists>err. events_effect (Some (e # es)) s = (s, Some err)"
  by (auto simp: events_effect_def nullish_def)

lemma sample_direct: "spec_detected (direct_event ''take_photo'')" "\<not> effect_raises (direct_event ''take_photo'')"
  by (simp_all add: spec_detected_def any_shape_def direct_event_def spec_function_name_def
      spec_name_locations_def effect_raises_def nullish_def event_output_def)

lemma sample_added: "spec_detected (added_event ''take_photo'')" "\<not> effect_raises (added_event ''take_photo'')"
  by (simp_all add: spec_detected_def any_shape_def added_event_def spec_function_name_def
      spec_name_locations_def effect_raises_def nullish_def event_output_def function_call_item_def
      marked_function_call_def)

lemma sample_done: "spec_detected (done_event [function_call_item ''take_photo''])"
   "\<not> effect_raises (done_event [function_call_item ''take_photo''])"
  by (simp_all add: spec_detected_def any_shape_def done_event_def spec_function_name_def
      spec_name_locations_def effect_raises_def nullish_def event_output_def function_call_item_def
      marked_function_call_def)

text \<open>
  Claim C3, as stated, fails on one kind of event. A \<open>response.done\<close> event whose
  output list holds \<open>null\<close> before a function-call element named \<open>take_photo\<close>
  matches the third shape with that name, but the effect raises a TypeError when the
  callback of \<open>some\<close> reads \<open>o.type\<close> of the \<open>null\<close> element: the camera is not
  requested.
\<close>

theorem events_effect_null_item_counterexample:
  "spec_detected (done_event [JNull, function_call_item ''take_photo'']) \<and>
   events_effect (Some [done_event [JNull, function_call_item ''take_photo'']]) initial_ui =
     (initial_ui, Some (cannot_read ''null'' ''type'')) \<and>
   \<not> showCamera initial_ui"
  by (simp add: spec_detected_def any_shape_def done_event_def spec_function_name_def
      spec_name_locations_def event_output_def function_call_item_def marked_function_call_def
      events_effect_def function_call_event_def is_function_call_def initial_ui_def)

lemma events_effect_cases:
  "(\<not> effect_raises e \<longrightarrow>
      events_effect (Some (e # es)) s =
        (if spec_detected e then s\<lparr>showCamera := True, analysisError := None\<rparr> else s, None)) \<and>
   (effect_raises e \<longrightarrow>
      fst (events_effect (Some (e # es)) s) = s \<and>
      snd (events_effect (Some (e # es)) s) \<noteq> None)"
proof (cases "nullish e")
  case True
  from events_effect_nullish [OF True] obtain err where
    "events_effect (Some (e # es)) s = (s, Some err)" by blast
  with True show ?thesis by (simp add: effect_raises_def)
next
  case present: False
  note run = events_effect_not_nullish [OF present]
  let ?done = "opt_prop e ''type'' = JStr ''response.done''"
  let ?bad = "list_method_raises (event_output e)"
  let ?named = "truthy (opt_prop (opt_prop e ''function'') ''name'') \<or>
                truthy (opt_prop (event_output e) ''name'')"
  show ?thesis
  proof (cases "?done \<and> ?bad")
    case True
    then obtain err where "function_call_event e = Inl err"
      using function_call_event_raises by blast
    with True show ?thesis by (simp add: run effect_raises_def)
  next
    case cond: False
    note found = function_call_event_matches [OF cond]
    show ?thesis
    proof (cases "any_shape e")
      case False
      then have "\<not> spec_matches DirectCall e" "\<not> spec_matches AddedItem e"
        by (simp_all add: any_shape_def)
      with False cond present show ?thesis
        by (auto simp: run found effect_raises_def spec_detected_def)
    next
      case shape: True
      have first_two: "spec_matches DirectCall e \<or> spec_matches AddedItem e" if ?bad
      proof -
        from that cond have "\<not> ?done" by simp
        with shape show ?thesis by (auto simp: any_shape_def)
      qed
      show ?thesis
      proof (cases "?named \<or> \<not> ?bad")
        case True
        from functionName_resolves [of e] True obtain n where
          n: "functionName e = Inr n"
             "n = JStr ''take_photo'' \<longleftrightarrow> spec_function_name e = JStr ''take_photo''"
          by blast
        from True cond have "\<not> effect_raises e"
          using present by (auto simp: effect_raises_def)
        with shape n show ?thesis
          by (simp add: run found spec_detected_def)
      next
        case False
        then have unnamed: "\<not> truthy (opt_prop (opt_prop e ''function'') ''name'')"
            "\<not> truthy (opt_prop (event_output e) ''name'')" and bad: ?bad
          by simp_all
        from functionName_raises [OF unnamed bad] obtain err where
          "functionName e = Inl err" by blast
        moreover from first_two [OF bad] unnamed bad have "effect_raises e"
          by (simp add: effect_raises_def)
        ultimately show ?thesis using shape by (simp add: run found)
      qed
    qed
  qed
qed

text \<open>
  Claim C3, amended. For every non-empty event list, only the newest event counts. If
  reading it raises no TypeError, the effect sets \<open>showCamera\<close> to true and clears
  the error text exactly when the event matches one of the three shapes and the
  function name, taken from the first of the three locations that holds a truthy value
  (direct function field, nested single-output name, first function-call element of
  the output list), is \<open>take_photo\<close>; any other event leaves the state unchanged. If
  reading the event raises (\<open>effect_raises\<close>), nothing is detected and the state is
  unchanged as well.
\<close>

theorem events_effect_classifies:
  "(\<not> effect_raises e \<longrightarrow>
      events_effect (Some (e # es)) s =
        (if spec_detected e then s\<lparr>showCamera := True, analysisError := None\<rparr> else s, None)) \<and>
   (effect_raises e \<longrightarrow>
      fst (events_effect (Some (e # es)) s) = s \<and>
      snd (events_effect (Some (e # es)) s) \<noteq> None)"
  by (rule events_effect_cases)

theorem events_effect_classifies_witness:
  "\<not> effect_raises (direct_event ''take_photo'') \<and>
   events_effect (Some [direct_event ''take_photo'']) initial_ui =
     (initial_ui\<lparr>showCamera := True, analysisError := None\<rparr>, None) \<and>
   events_effect (Some [added_event ''take_photo'']) initial_ui =
     (initial_ui\<lparr>showCamera := True, analysisError := None\<rparr>, None) \<and>
   events_effect (Some [done_event [function_call_item ''take_photo'']]) initial_ui =
     (initial_ui\<lparr>showCamera := True, analysisError := None\<rparr>, None) \<and>
   effect_raises (done_event [JNull, function_call_item ''take_photo'']) \<and>
   fst (events_effect (Some [done_event [JNull, function_call_item ''take_photo'']]) initial_ui) =
     initial_ui"
proof -
  have raises: "effect_raises (done_event [JNull, function_call_item ''take_photo''])"
    by (simp add: effect_raises_def done_event_def event_output_def nullish_def)
  show ?thesis
    using raises sample_direct sample_added sample_done
      events_effect_classifies [of "direct_event ''take_photo''" "[]" initial_ui]
      events_effect_classifies [of "added_event ''take_photo''" "[]" initial_ui]
      events_effect_classifies [of "done_event [function_call_item ''take_photo'']" "[]" initial_ui]
      events_effect_classifies
        [of "done_event [JNull, function_call_item ''take_photo'']" "[]" initial_ui]
    by simp
qed


section \<open>The panel's reachable states\<close>

lemma events_effect_filename:
  "currentImageFilename (fst (events_effect evs s)) = currentImageFilename s"
  by (auto simp: events_effect_def split: option.split list.split sum.split)

lemma session_effect_no_filename:
  "currentImageFilename s = None \<Longrightarrow>
   currentImageFilename (fst (session_effect b r s)) = None \<and> snd (session_effect b r s) = []"
  by (simp add: session_effect_def Let_def)

lemma session_effect_with_filename:
  "f \<noteq> [] \<Longrightarrow>
   session_effect False r (s\<lparr>currentImageFilename := Some f\<rparr>) =
     (s\<lparr>showCamera := False, currentImageFilename := None, isAnalyzing := False,
        currentImage := None, analysisError := None\<rparr>,
      cleanupSession f r)"
  by (simp add: session_effect_def Let_def)

lemma begin_filename:
  "currentImageFilename (fst (handlePhotoTaken_begin img s)) = currentImageFilename s"
  "list_ex cleanup_request (snd (handlePhotoTaken_begin img s)) = False"
  by (simp_all add: handlePhotoTaken_begin_def)

lemma catch_filename:
  "currentImageFilename (fst (handlePhotoTaken_catch dc err s)) = currentImageFilename s"
  "list_ex cleanup_request (snd (handlePhotoTaken_catch dc err s)) = False"
  by (simp_all add: handlePhotoTaken_catch_def Let_def split: option.split)

lemma loop_no_cleanup:
  "list_ex cleanup_request (fst (sendToModel_loop dc a t k)) = False"
proof (induction dc a t k rule: sendToModel_loop.induct)
  case (1 dataChannel isSessionActive analysisText attempt)
  show ?case
  proof (cases "attempt < maxAttempts")
    case False
    then show ?thesis by (subst sendToModel_loop.simps) simp
  next
    case True
    show ?thesis
    proof (cases dataChannel)
      case None
      with True show ?thesis by (subst sendToModel_loop.simps) simp
    next
      case (Some ch)
      show ?thesis
      proof (cases "isSessionActive \<and> ch attempt \<noteq> Open")
        case False
        with True Some show ?thesis by (subst sendToModel_loop.simps) auto
      next
        case go: True
        then have "list_ex cleanup_request
            (fst (sendToModel_loop dataChannel isSessionActive analysisText (attempt + 1))) = False"
          using "1.IH" [OF True Some] by simp
        with True Some go show ?thesis
          by (subst sendToModel_loop.simps) (simp add: Let_def)
      qed
    qed
  qed
qed

lemma background_no_cleanup:
  "list_ex cleanup_request (sendToModel_background dc a t) = False"
  by (simp add: sendToModel_background_def sendToModel_def Let_def loop_no_cleanup
      split: sum.split)

lemma resume_filename:
  "currentImageFilename (fst (handlePhotoTaken_resume dc a r s)) = currentImageFilename s"
  "list_ex cleanup_request (snd (handlePhotoTaken_resume dc a r s)) = False"
  by (simp_all add: handlePhotoTaken_resume_def Let_def catch_filename background_no_cleanup
      split: sum.split)

lemma panel_step_invariant:
  assumes "panel_step p q"
    and "currentImageFilename (ui p) = None \<and> \<not> list_ex cleanup_request (issued p)"
  shows "currentImageFilename (ui q) = None \<and> \<not> list_ex cleanup_request (issued q)"
  using assms
proof (induction rule: panel_step.induct)
  case (events_changed evs p s')
  then show ?case using events_effect_filename [of evs "ui p"] by simp
next
  case (session_changed b r p s' acts)
  then show ?case using session_effect_no_filename [of "ui p" b r] by simp
next
  case (channel_changed p dc)
  then show ?case by simp
next
  case (camera_closed p)
  then show ?case by simp
next
  case (photo_taken p img s' acts)
  then show ?case using begin_filename [of img "ui p"] by simp
next
  case (analysis_settled dc a p fetched t r s' acts)
  then show ?case using resume_filename [of dc a r "ui p"] by simp
qed

lemma step_receive_events:
  "snd (events_effect (Some evs) (ui p)) = None \<Longrightarrow> panel_step p (receive_events evs p)"
  unfolding receive_events_def
  by (rule events_changed [of "Some evs"]) (simp add: prod_eq_iff)

lemma step_photo_from_modal:
  "showCamera (ui p) \<Longrightarrow> panel_step p (photo_from_modal img p)"
  unfolding photo_from_modal_def
  by (rule photo_taken [of p img]) simp_all

lemma step_end_session: "panel_step p (end_session p)"
  unfolding end_session_def
  by (rule session_changed [of False "Inr ()"]) simp

lemma direct_take_photo_effect:
  "events_effect (Some (direct_event ''take_photo'' # es)) s =
     (s\<lparr>showCamera := True, analysisError := None\<rparr>, None)"
  by (simp add: events_effect_def direct_event_def function_call_event_def functionName_def)

lemma ui_camera_requested:
  "ui camera_requested_panel = initial_ui\<lparr>showCamera := True\<rparr>"
  by (simp add: camera_requested_panel_def receive_events_def direct_take_photo_effect
      mount_def initial_ui_def)

lemma reach_camera_requested: "reachable camera_requested_panel"
  unfolding camera_requested_panel_def
  by (rule stepped [OF mounted step_receive_events]) (simp add: direct_take_photo_effect)

lemma reach_analyzing: "reachable analyzing_panel"
  unfolding analyzing_panel_def
  by (rule stepped [OF reach_camera_requested step_photo_from_modal])
     (simp add: ui_camera_requested)

lemma ui_analyzing:
  "ui analyzing_panel =
     \<lparr>showCamera = False, currentImageFilename = None, isAnalyzing = True,
      currentImage = Some ''test-image-url'', analysisError = None\<rparr>"
  by (simp add: analyzing_panel_def photo_from_modal_def ui_camera_requested
      handlePhotoTaken_begin_def initial_ui_def)

lemma reach_reentered: "reachable reentered_panel"
  unfolding reentered_panel_def
  by (rule stepped [OF reach_analyzing step_receive_events]) (simp add: direct_take_photo_effect)

lemma ui_reentered:
  "ui reentered_panel =
     \<lparr>showCamera = True, currentImageFilename = None, isAnalyzing = True,
      currentImage = Some ''test-image-url'', analysisError = None\<rparr>"
  by (simp add: reentered_panel_def receive_events_def direct_take_photo_effect ui_analyzing)

lemma reach_second_capture: "reachable second_capture_panel"
  unfolding second_capture_panel_def
  by (rule stepped [OF reach_reentered step_photo_from_modal]) (simp add: ui_reentered)

lemma reach_session_ended: "reachable session_ended_panel"
  unfolding session_ended_panel_def
  by (rule stepped [OF reach_analyzing step_end_session])

text \<open>
  Claim C10. In every reachable state of the panel \<open>currentImageFilename\<close> is
  \<open>null\<close>: it starts as \<open>null\<close> and the only assignment in the component sets it to
  \<open>null\<close>. Hence the branch of the session effect that calls \<open>cleanupSession\<close> is
  never taken, and no request to \<open>/cleanup-image\<close> is among the actions issued,
  whatever photos were taken and however the session flag changed.
\<close>

theorem currentImageFilename_always_null:
  "reachable p \<Longrightarrow>
   currentImageFilename (ui p) = None \<and> \<not> list_ex cleanup_request (issued p)"
proof (induction rule: reachable.induct)
  case (mounted active dc)
  show ?case by (simp add: mount_def initial_ui_def)
next
  case (stepped p q)
  then show ?case using panel_step_invariant by blast
qed

theorem currentImageFilename_always_null_witness:
  "reachable session_ended_panel \<and>
   currentImageFilename (ui session_ended_panel) = None \<and>
   \<not> list_ex cleanup_request (issued session_ended_panel)"
  using reach_session_ended currentImageFilename_always_null [OF reach_session_ended]
  by simp

text \<open>
  Claim C5, evaluated on the component. The panel is mounted with an active session, a
  \<open>take_photo\<close> event arrives, the modal hands over the photo \<open>test-image-url\<close>
  (the image is now set) and the session flag turns false. The session effect resets
  camera, analyzing flag, error text and image, but issues no cleanup request: the only
  request ever issued is the analysis request, because \<open>currentImageFilename\<close> is
  still \<open>null\<close> (\<open>session_effect_with_filename\<close> shows the request the effect
  would issue for a state that held a file name; by the invariant above no such state
  is reached).
\<close>

theorem session_end_issues_no_cleanup:
  "reachable analyzing_panel \<and> props_active analyzing_panel \<and>
   currentImage (ui analyzing_panel) = Some ''test-image-url'' \<and>
   reachable session_ended_panel \<and> \<not> props_active session_ended_panel \<and>
   ui session_ended_panel = initial_ui \<and>
   issued session_ended_panel =
     [Fetch ''/analyze-image'' (JObj [(''imageData'', JStr ''test-image-url'')])]"
proof -
  have active: "props_active analyzing_panel"
    by (simp add: analyzing_panel_def photo_from_modal_def camera_requested_panel_def
        receive_events_def mount_def)
  have requests: "issued analyzing_panel =
      [Fetch ''/analyze-image'' (JObj [(''imageData'', JStr ''test-image-url'')])]"
    by (simp add: analyzing_panel_def photo_from_modal_def camera_requested_panel_def
        receive_events_def mount_def handlePhotoTaken_begin_def)
  have effect: "session_effect False (Inr ()) (ui analyzing_panel) = (initial_ui, [])"
    by (simp add: session_effect_def ui_analyzing initial_ui_def)
  have ended: "ui session_ended_panel = initial_ui"
      "\<not> props_active session_ended_panel"
      "issued session_ended_panel =
         [Fetch ''/analyze-image'' (JObj [(''imageData'', JStr ''test-image-url'')])]"
    by (simp_all add: session_ended_panel_def end_session_def effect requests)
  have image: "currentImage (ui analyzing_panel) = Some ''test-image-url''"
    by (simp add: ui_analyzing)
  from reach_analyzing reach_session_ended active image ended show ?thesis
    by simp
qed

text \<open>
  Claim C6, as stated, fails. While an analysis is in progress (analyzing flag set,
  camera hidden) a new \<open>take_photo\<close> event shows the camera again, and the photo
  taken then starts a second analysis while the first is still awaited.
\<close>

theorem reentrancy_counterexample:
  "reachable analyzing_panel \<and> isAnalyzing (ui analyzing_panel) \<and>
   \<not> showCamera (ui analyzing_panel) \<and>
   reachable reentered_panel \<and> isAnalyzing (ui reentered_panel) \<and>
   showCamera (ui reentered_panel) \<and>
   reachable second_capture_panel \<and> length (in_flight second_capture_panel) = 2"
proof -
  have "length (in_flight second_capture_panel) = 2"
    by (simp add: second_capture_panel_def reentered_panel_def analyzing_panel_def
        photo_from_modal_def receive_events_def camera_requested_panel_def mount_def)
  then show ?thesis
    by (simp add: reach_analyzing reach_reentered reach_second_capture ui_analyzing ui_reentered)
qed

text \<open>
  Claim C6, amended. The events effect does not consult the analyzing flag. A
  \<open>take_photo\<close> event that arrives while the panel is analyzing is processed as in
  any other state: \<open>showCamera\<close> becomes true and the error text is cleared, the
  analyzing flag stays set, and the modal's photo callback is enabled again, so that a
  photo taken then adds a second analysis to the one in flight.
\<close>

theorem take_photo_while_analyzing:
  assumes "isAnalyzing (ui p)" and "spec_detected e" and "\<not> effect_raises e"
  shows "events_effect (Some (e # es)) (ui p) =
           ((ui p)\<lparr>showCamera := True, analysisError := None\<rparr>, None) \<and>
         isAnalyzing (ui (receive_events (e # es) p)) \<and>
         showCamera (ui (receive_events (e # es) p)) \<and>
         panel_step p (receive_events (e # es) p) \<and>
         panel_step (receive_events (e # es) p)
           (photo_from_modal img (receive_events (e # es) p)) \<and>
         length (in_flight (photo_from_modal img (receive_events (e # es) p))) =
           Suc (length (in_flight p))"
proof -
  have run: "events_effect (Some (e # es)) (ui p) =
           ((ui p)\<lparr>showCamera := True, analysisError := None\<rparr>, None)"
    using events_effect_cases [of e es "ui p"] assms(2,3) by simp
  then have shown: "showCamera (ui (receive_events (e # es) p))"
    by (simp add: receive_events_def)
  have step: "panel_step p (receive_events (e # es) p)"
    by (rule step_receive_events) (simp add: run)
  show ?thesis
    using assms(1) shown step step_photo_from_modal [OF shown, of img]
    by (simp add: run receive_events_def photo_from_modal_def)
qed

theorem take_photo_while_analyzing_witness:
  "isAnalyzing (ui analyzing_panel) \<and> spec_detected (direct_event ''take_photo'') \<and>
   \<not> effect_raises (direct_event ''take_photo'') \<and>
   showCamera (ui (receive_events [direct_event ''take_photo''] analyzing_panel)) \<and>
   isAnalyzing (ui (receive_events [direct_event ''take_photo''] analyzing_panel)) \<and>
   length (in_flight (photo_from_modal ''second-image-url''
     (receive_events [direct_event ''take_photo''] analyzing_panel))) =
     Suc (length (in_flight analyzing_panel))"
proof -
  have a: "isAnalyzing (ui analyzing_panel)" by (simp add: ui_analyzing)
  show ?thesis
    using a sample_direct
      take_photo_while_analyzing [OF a sample_direct, of "[]" "''second-image-url''"]
    by simp
qed

section \<open>The camera modal's stream\<close>

text \<open>
  Claim C7, evaluated on the component. The modal is mounted, \<open>getUserMedia\<close>
  resolves with a stream \<open>h\<close> of at least one live track, and the modal is left by
  any of the three exit paths. The cleanup function still sees the \<open>stream\<close> of the
  first render, which is \<open>null\<close>, and stops nothing: every track of \<open>h\<close> is still
  live afterwards.
\<close>

theorem camera_stream_left_live:
  "stream (state (fst (setupCamera_resolved h (Suc n) CameraModal_mount st))) = Some h \<and>
   snd (dismiss path (fst (setupCamera_resolved h (Suc n) CameraModal_mount st))
          (snd (setupCamera_resolved h (Suc n) CameraModal_mount st))) h =
     Some (replicate (Suc n) Live) \<and>
   \<not> released h
       (snd (dismiss path (fst (setupCamera_resolved h (Suc n) CameraModal_mount st))
          (snd (setupCamera_resolved h (Suc n) CameraModal_mount st))))"
  by (cases path)
     (simp_all add: setupCamera_resolved_def CameraModal_mount_def unmount_def
        effect_cleanup_def released_def Let_def)

end
